theory Spec2Isabelle
  imports Main "HOL-Library.Word" "HOL-Library.Char_ord"
begin

unbundle bit_operations_syntax

section \<open>Strings, bytes and the library calls of service.go\<close>

text \<open>
  A Go \<open>string\<close> and a Go \<open>[]byte\<close> are both sequences of bytes; both are modelled as
  \<^typ>\<open>string\<close>, a list of 8-bit characters, so \<open>string(b)\<close> and \<open>[]byte(s)\<close> are the
  identity. Byte arithmetic (the hex decoder) is done on \<^typ>\<open>8 word\<close>.
\<close>

type_synonym byte = "8 word"

definition byte_of :: "char \<Rightarrow> byte" where
  "byte_of c = of_char c"

definition char_of_byte :: "byte \<Rightarrow> char" where
  "char_of_byte b = char_of (unat b)"

subsection \<open>Character classes of the four regular expressions\<close>

definition is_digit :: "char \<Rightarrow> bool" where
  "is_digit c \<longleftrightarrow> CHR ''0'' \<le> c \<and> c \<le> CHR ''9''"

definition is_lower :: "char \<Rightarrow> bool" where
  "is_lower c \<longleftrightarrow> CHR ''a'' \<le> c \<and> c \<le> CHR ''z''"

definition is_upper :: "char \<Rightarrow> bool" where
  "is_upper c \<longleftrightarrow> CHR ''A'' \<le> c \<and> c \<le> CHR ''Z''"

text \<open>The class \<open>\s\<close> of Go's regexp package: tab, newline, form feed, carriage return, space.\<close>

definition is_space :: "char \<Rightarrow> bool" where
  "is_space c \<longleftrightarrow>
     c = CHR 0x09 \<or> c = CHR 0x0A \<or> c = CHR 0x0C \<or> c = CHR 0x0D \<or> c = CHR '' ''"

text \<open>\<open>reUnsafeChars = [^0-9a-zA-Z\s\.]\<close>: the characters the class lets through.\<close>

definition safe_char :: "char \<Rightarrow> bool" where
  "safe_char c \<longleftrightarrow> is_digit c \<or> is_lower c \<or> is_upper c \<or> is_space c \<or> c = CHR ''.''"

text \<open>\<open>reUnsafeFile = [^0-9a-zA-Z-_]\<close>: digits, letters, dash and underscore pass; the dot
  does not.\<close>

definition safe_file_char :: "char \<Rightarrow> bool" where
  "safe_file_char c \<longleftrightarrow>
     is_digit c \<or> is_lower c \<or> is_upper c \<or> c = CHR ''-'' \<or> c = CHR ''_''"

subsection \<open>UTF-8 and \<open>Regexp.ReplaceAllString\<close>\<close>

definition continuation :: "char \<Rightarrow> bool" where
  "continuation c \<longleftrightarrow> CHR 0x80 \<le> c \<and> c \<le> CHR 0xBF"

text \<open>
  The regexp engine reads its input rune by rune with \<open>utf8.DecodeRuneInString\<close>;
  \<open>rune_size\<close> is the width that call reports for the rune at the head of the input: an
  ill-formed or truncated sequence is the replacement rune of width 1.
\<close>

fun rune_size :: "string \<Rightarrow> nat" where
  "rune_size [] = 0"
| "rune_size (s0 # t) =
     (if s0 < CHR 0x80 then 1
      else if s0 < CHR 0xC2 \<or> CHR 0xF4 < s0 then 1
      else
        let sz = (if s0 < CHR 0xE0 then 2 else if s0 < CHR 0xF0 then 3 else 4 :: nat);
            lo = (if s0 = CHR 0xE0 then CHR 0xA0 else if s0 = CHR 0xF0 then CHR 0x90
                  else CHR 0x80);
            hi = (if s0 = CHR 0xED then CHR 0x9F else if s0 = CHR 0xF4 then CHR 0x8F
                  else CHR 0xBF)
        in if length (s0 # t) < sz then 1
           else if t ! 0 < lo \<or> hi < t ! 0 then 1
           else if sz \<le> 2 then 2
           else if \<not> continuation (t ! 1) then 1
           else if sz \<le> 3 then 3
           else if \<not> continuation (t ! 2) then 1
           else 4)"

declare rune_size.simps [simp del]

text \<open>
  \<open>re.ReplaceAllString(s, repl)\<close> for a negated class of ASCII characters (\<open>reUnsafeChars\<close>,
  \<open>reUnsafeFile\<close>): every rune outside the class, which includes every rune that is not ASCII,
  is one match and is replaced by \<open>repl\<close>; the other bytes are copied.
\<close>

function replace_unsafe :: "(char \<Rightarrow> bool) \<Rightarrow> string \<Rightarrow> string \<Rightarrow> string" where
  "replace_unsafe safe repl [] = []"
| "replace_unsafe safe repl (c # cs) =
     (if c < CHR 0x80 \<and> safe c then c # replace_unsafe safe repl cs
      else repl @ replace_unsafe safe repl (drop (rune_size (c # cs) - 1) cs))"
  by pat_completeness auto
termination
  by (relation "measure (\<lambda>(safe, repl, s). length s)") auto

text \<open>
  \<open>re.ReplaceAllString(s, repl)\<close> for \<open>p+\<close> with \<open>p\<close> a class of ASCII characters
  (\<open>reRepeatedDash = -+\<close>, \<open>reRepeatedBlank = \s+\<close>): each maximal run is one match.
\<close>

function replace_runs :: "(char \<Rightarrow> bool) \<Rightarrow> string \<Rightarrow> string \<Rightarrow> string" where
  "replace_runs p repl [] = []"
| "replace_runs p repl (c # cs) =
     (if p c then repl @ replace_runs p repl (dropWhile p cs)
      else c # replace_runs p repl cs)"
  by pat_completeness auto
termination
  by (relation "measure (\<lambda>(p, repl, s). length s)")
     (auto simp: length_dropWhile_le less_Suc_eq_le)

subsection \<open>\<open>strings.Trim\<close>, \<open>strings.Split\<close>, \<open>path.Base\<close>, \<open>path.Ext\<close>\<close>

text \<open>\<open>strings.Trim(s, cutset)\<close> for a cutset of one ASCII character.\<close>

definition Trim :: "string \<Rightarrow> char \<Rightarrow> string" where
  "Trim s c = rev (dropWhile (\<lambda>x. x = c) (rev (dropWhile (\<lambda>x. x = c) s)))"

text \<open>\<open>strings.Split(s, sep)\<close> for a separator of one character: one more piece than there
  are separators, so the empty string gives one empty piece.\<close>

fun Split :: "string \<Rightarrow> char \<Rightarrow> string list" where
  "Split [] sep = [[]]"
| "Split (c # cs) sep =
     (if c = sep then [] # Split cs sep
      else (case Split cs sep of [] \<Rightarrow> [[c]] | t # ts \<Rightarrow> (c # t) # ts))"

text \<open>\<open>path.Base\<close>: the empty path is \<open>"."\<close>, trailing slashes are stripped, the last
  element is taken, and a path of slashes only is \<open>"/"\<close>.\<close>

definition path_Base :: "string \<Rightarrow> string" where
  "path_Base p =
     (if p = [] then ''.''
      else
        let stripped = rev (dropWhile (\<lambda>x. x = CHR ''/'') (rev p));
            last_elem = rev (takeWhile (\<lambda>x. x \<noteq> CHR ''/'') (rev stripped))
        in if last_elem = [] then ''/'' else last_elem)"

text \<open>\<open>path.Ext\<close> scans backwards from the end to the last slash; the extension starts at
  the first dot met.\<close>

fun ext_scan :: "string \<Rightarrow> string \<Rightarrow> string" where
  "ext_scan [] acc = []"
| "ext_scan (c # rs) acc =
     (if c = CHR ''/'' then []
      else if c = CHR ''.'' then c # acc
      else ext_scan rs (c # acc))"

definition path_Ext :: "string \<Rightarrow> string" where
  "path_Ext p = ext_scan (rev p) []"

section \<open>Query sanitizer (capturesHandler, lines 279-280)\<close>

definition sanitize_query :: "string \<Rightarrow> string" where
  "sanitize_query q =
     replace_runs is_space '' '' (replace_unsafe safe_char '' '' q)"

text \<open>
  The sanitizer as the specification words it: the characters of \<open>[0-9a-zA-Z.]\<close> stay, and
  each maximal run of other characters (removed ones and whitespace alike) leaves one
  space. The flag tells whether the character before belonged to such a run.
\<close>

fun spec_runs :: "bool \<Rightarrow> string \<Rightarrow> string" where
  "spec_runs in_run [] = []"
| "spec_runs in_run (c # cs) =
     (if safe_char c \<and> \<not> is_space c then c # spec_runs False cs
      else if in_run then spec_runs True cs
      else CHR '' '' # spec_runs True cs)"

definition spec_sanitize :: "string \<Rightarrow> string" where
  "spec_sanitize q = spec_runs False q"

section \<open>Errors\<close>

text \<open>
  Go's \<open>error\<close> values that reach the handlers: the store's, those of \<open>encoding/hex\<close>,
  \<open>net/url\<close> and \<open>strconv\<close>, and a failure of \<open>json.Marshal\<close>.
\<close>

datatype error =
    ErrNoMoreRows
  | StoreFailure string
  | InvalidByteError char
  | ErrLength
  | InvalidControlCharacter
  | MissingProtocolScheme
  | FirstPathSegmentColon
  | EscapeError string
  | InvalidHostError string
  | MissingBracket
  | InvalidPort string
  | InvalidUserinfo
  | ErrSyntax
  | ErrRange
  | MarshalError

section \<open>\<open>net/url\<close>: \<open>url.Parse\<close>\<close>

text \<open>
  \<open>replyBinary\<close> calls \<open>url.Parse\<close> on the stored URL and fails when it fails. The model
  follows the library function through every error it can report and computes the
  fields it fills that are followed here.
\<close>

record URL =
  url_Scheme :: string
  url_Opaque :: string
  url_Host :: string
  url_Path :: string

datatype encoding =
    encodePath | encodePathSegment | encodeHost | encodeZone
  | encodeUserPassword | encodeQueryComponent | encodeFragment

definition ishex :: "char \<Rightarrow> bool" where
  "ishex c \<longleftrightarrow> is_digit c \<or> (CHR ''a'' \<le> c \<and> c \<le> CHR ''f'') \<or> (CHR ''A'' \<le> c \<and> c \<le> CHR ''F'')"

definition unhex :: "char \<Rightarrow> byte" where
  "unhex c =
     (if is_digit c then byte_of c - byte_of (CHR ''0'')
      else if CHR ''a'' \<le> c \<and> c \<le> CHR ''f'' then byte_of c - byte_of (CHR ''a'') + 10
      else if CHR ''A'' \<le> c \<and> c \<le> CHR ''F'' then byte_of c - byte_of (CHR ''A'') + 10
      else 0)"

definition shouldEscape :: "char \<Rightarrow> encoding \<Rightarrow> bool" where
  "shouldEscape c mode =
     (if is_lower c \<or> is_upper c \<or> is_digit c then False
      else if (mode = encodeHost \<or> mode = encodeZone) \<and>
              c \<in> set [CHR ''!'', CHR ''$'', CHR ''&'', CHR 0x27, CHR ''('', CHR '')'',
                        CHR ''*'', CHR ''+'', CHR '','', CHR '';'', CHR ''='', CHR '':'',
                        CHR ''['', CHR '']'', CHR ''<'', CHR ''>'', CHR 0x22]
        then False
      else if c \<in> set [CHR ''-'', CHR ''_'', CHR ''.'', CHR ''~''] then False
      else if c \<in> set [CHR ''$'', CHR ''&'', CHR ''+'', CHR '','', CHR ''/'', CHR '':'',
                        CHR '';'', CHR ''='', CHR ''?'', CHR ''@'']
        then (case mode of
                encodePath \<Rightarrow> c = CHR ''?''
              | encodePathSegment \<Rightarrow>
                  c = CHR ''/'' \<or> c = CHR '';'' \<or> c = CHR '','' \<or> c = CHR ''?''
              | encodeUserPassword \<Rightarrow>
                  c = CHR ''@'' \<or> c = CHR ''/'' \<or> c = CHR ''?'' \<or> c = CHR '':''
              | encodeQueryComponent \<Rightarrow> True
              | encodeFragment \<Rightarrow> False
              | _ \<Rightarrow> True)
      else if mode = encodeFragment \<and>
              c \<in> set [CHR ''!'', CHR ''('', CHR '')'', CHR ''*''] then False
      else True)"

text \<open>
  \<open>unescape\<close>: the library first checks every escape and every host character, then
  decodes; the first offence, in reading order, is the error. One pass that stops at
  the first offence returns the same.
\<close>

fun unescape :: "string \<Rightarrow> encoding \<Rightarrow> error + string" where
  "unescape [] mode = Inr []"
| "unescape (c # s) mode =
     (if c = CHR ''%'' then
        (case s of
           h1 # h2 # rest \<Rightarrow>
             if \<not> ishex h1 \<or> \<not> ishex h2 then Inl (EscapeError [c, h1, h2])
             else if mode = encodeHost \<and> unhex h1 < 8 \<and> [c, h1, h2] \<noteq> ''%25''
               then Inl (EscapeError [c, h1, h2])
             else if mode = encodeZone \<and> [c, h1, h2] \<noteq> ''%25'' \<and>
                     char_of_byte (push_bit 4 (unhex h1) OR unhex h2) \<noteq> CHR '' '' \<and>
                     shouldEscape (char_of_byte (push_bit 4 (unhex h1) OR unhex h2)) encodeHost
               then Inl (EscapeError [c, h1, h2])
             else (case unescape rest mode of
                     Inl e \<Rightarrow> Inl e
                   | Inr t \<Rightarrow> Inr (char_of_byte (push_bit 4 (unhex h1) OR unhex h2) # t))
         | _ \<Rightarrow> Inl (EscapeError (c # s)))
      else if c = CHR ''+'' then
        (case unescape s mode of
           Inl e \<Rightarrow> Inl e
         | Inr t \<Rightarrow> Inr ((if mode = encodeQueryComponent then CHR '' '' else CHR ''+'') # t))
      else if (mode = encodeHost \<or> mode = encodeZone) \<and> c < CHR 0x80 \<and>
              shouldEscape c encodeHost
        then Inl (InvalidHostError [c])
      else (case unescape s mode of Inl e \<Rightarrow> Inl e | Inr t \<Rightarrow> Inr (c # t)))"

text \<open>\<open>getscheme\<close>: \<open>i\<close> counts the characters read, \<open>rawurl\<close> is the whole input.\<close>

fun getscheme_from :: "nat \<Rightarrow> string \<Rightarrow> string \<Rightarrow> error + (string \<times> string)" where
  "getscheme_from i rawurl [] = Inr ([], rawurl)"
| "getscheme_from i rawurl (c # cs) =
     (if is_lower c \<or> is_upper c then getscheme_from (Suc i) rawurl cs
      else if is_digit c \<or> c = CHR ''+'' \<or> c = CHR ''-'' \<or> c = CHR ''.'' then
        (if i = 0 then Inr ([], rawurl) else getscheme_from (Suc i) rawurl cs)
      else if c = CHR '':'' then
        (if i = 0 then Inl MissingProtocolScheme else Inr (take i rawurl, cs))
      else Inr ([], rawurl))"

definition getscheme :: "string \<Rightarrow> error + (string \<times> string)" where
  "getscheme rawurl = getscheme_from 0 rawurl rawurl"

text \<open>\<open>strings.ToLower\<close> on the scheme, which holds ASCII characters only.\<close>

definition ToLower :: "string \<Rightarrow> string" where
  "ToLower s = map (\<lambda>c. if is_upper c then char_of (of_char c + (32 :: nat)) else c) s"

text \<open>\<open>strings.Index\<close> and \<open>strings.LastIndex\<close>, with \<open>None\<close> for \<open>-1\<close>.\<close>

fun Index :: "string \<Rightarrow> string \<Rightarrow> nat option" where
  "Index [] sub = (if sub = [] then Some 0 else None)"
| "Index (c # s) sub =
     (if take (length sub) (c # s) = sub then Some 0 else map_option Suc (Index s sub))"

definition LastIndex :: "string \<Rightarrow> char \<Rightarrow> nat option" where
  "LastIndex s c =
     (if c \<in> set s then Some (length s - 1 - length (takeWhile (\<lambda>x. x \<noteq> c) (rev s)))
      else None)"

text \<open>The library's \<open>split(s, sep, cutc)\<close>.\<close>

definition split_at :: "string \<Rightarrow> string \<Rightarrow> bool \<Rightarrow> string \<times> string" where
  "split_at s sep cutc =
     (case Index s sep of
        None \<Rightarrow> (s, [])
      | Some i \<Rightarrow> if cutc then (take i s, drop (i + length sep) s) else (take i s, drop i s))"

definition stringContainsCTLByte :: "string \<Rightarrow> bool" where
  "stringContainsCTLByte s = list_ex (\<lambda>b. b < CHR '' '' \<or> b = CHR 0x7F) s"

definition validOptionalPort :: "string \<Rightarrow> bool" where
  "validOptionalPort port =
     (case port of
        [] \<Rightarrow> True
      | c # ds \<Rightarrow> c = CHR '':'' \<and> list_all is_digit ds)"

definition validUserinfo :: "string \<Rightarrow> bool" where
  "validUserinfo s =
     list_all (\<lambda>r. is_upper r \<or> is_lower r \<or> is_digit r \<or>
                 r \<in> set [CHR ''-'', CHR ''.'', CHR ''_'', CHR '':'', CHR ''~'', CHR ''!'',
                           CHR ''$'', CHR ''&'', CHR 0x27, CHR ''('', CHR '')'', CHR ''*'',
                           CHR ''+'', CHR '','', CHR '';'', CHR ''='', CHR ''%'', CHR ''@'']) s"

definition parseHost :: "string \<Rightarrow> error + string" where
  "parseHost host =
     (if take 1 host = ''['' then
        (case LastIndex host (CHR '']'') of
           None \<Rightarrow> Inl MissingBracket
         | Some i \<Rightarrow>
             if \<not> validOptionalPort (drop (i + 1) host) then Inl (InvalidPort (drop (i + 1) host))
             else
               (case Index (take i host) ''%25'' of
                  Some zone \<Rightarrow>
                    (case unescape (take zone host) encodeHost of
                       Inl e \<Rightarrow> Inl e
                     | Inr host1 \<Rightarrow>
                         (case unescape (drop zone (take i host)) encodeZone of
                            Inl e \<Rightarrow> Inl e
                          | Inr host2 \<Rightarrow>
                              (case unescape (drop i host) encodeHost of
                                 Inl e \<Rightarrow> Inl e
                               | Inr host3 \<Rightarrow> Inr (host1 @ host2 @ host3))))
                | None \<Rightarrow> unescape host encodeHost))
      else
        (case LastIndex host (CHR '':'') of
           Some i \<Rightarrow>
             if \<not> validOptionalPort (drop i host) then Inl (InvalidPort (drop i host))
             else unescape host encodeHost
         | None \<Rightarrow> unescape host encodeHost))"

text \<open>\<open>parseAuthority\<close>: the host is parsed first; the user information is then checked
  and unescaped, and only its failure matters here.\<close>

definition parseAuthority :: "string \<Rightarrow> error + string" where
  "parseAuthority authority =
     (case LastIndex authority (CHR ''@'') of
        None \<Rightarrow> parseHost authority
      | Some i \<Rightarrow>
          (case parseHost (drop (i + 1) authority) of
             Inl e \<Rightarrow> Inl e
           | Inr host \<Rightarrow>
               let userinfo = take i authority in
               if \<not> validUserinfo userinfo then Inl InvalidUserinfo
               else if CHR '':'' \<notin> set userinfo then
                 (case unescape userinfo encodeUserPassword of
                    Inl e \<Rightarrow> Inl e
                  | Inr _ \<Rightarrow> Inr host)
               else
                 (case unescape (fst (split_at userinfo '':'' True)) encodeUserPassword of
                    Inl e \<Rightarrow> Inl e
                  | Inr _ \<Rightarrow>
                      (case unescape (snd (split_at userinfo '':'' True)) encodeUserPassword of
                         Inl e \<Rightarrow> Inl e
                       | Inr _ \<Rightarrow> Inr host))))"

text \<open>\<open>parse(rawurl, viaRequest)\<close> with \<open>viaRequest = false\<close>, as \<open>url.Parse\<close> calls it.\<close>

definition parse :: "string \<Rightarrow> error + URL" where
  "parse rawurl =
     (if stringContainsCTLByte rawurl then Inl InvalidControlCharacter
      else if rawurl = ''*'' then
        Inr \<lparr>url_Scheme = [], url_Opaque = [], url_Host = [], url_Path = ''*''\<rparr>
      else
        (case getscheme rawurl of
           Inl e \<Rightarrow> Inl e
         | Inr (scheme0, rest0) \<Rightarrow>
             let scheme = ToLower scheme0;
                 rest = (if rest0 \<noteq> [] \<and> last rest0 = CHR ''?'' \<and>
                            count_list rest0 (CHR ''?'') = 1
                         then butlast rest0 else fst (split_at rest0 ''?'' True))
             in
             if take 1 rest \<noteq> ''/'' \<and> scheme \<noteq> [] then
               Inr \<lparr>url_Scheme = scheme, url_Opaque = rest, url_Host = [], url_Path = []\<rparr>
             else if take 1 rest \<noteq> ''/'' \<and>
                     (case Index rest '':'' of
                        None \<Rightarrow> False
                      | Some colon \<Rightarrow>
                          (case Index rest ''/'' of
                             None \<Rightarrow> True
                           | Some slash \<Rightarrow> colon < slash))
               then Inl FirstPathSegmentColon
             else if (scheme \<noteq> [] \<or> take 3 rest \<noteq> ''///'') \<and> take 2 rest = ''//'' then
               (case parseAuthority (fst (split_at (drop 2 rest) ''/'' False)) of
                  Inl e \<Rightarrow> Inl e
                | Inr host \<Rightarrow>
                    (case unescape (snd (split_at (drop 2 rest) ''/'' False)) encodePath of
                       Inl e \<Rightarrow> Inl e
                     | Inr p \<Rightarrow>
                         Inr \<lparr>url_Scheme = scheme, url_Opaque = [], url_Host = host,
                              url_Path = p\<rparr>))
             else
               (case unescape rest encodePath of
                  Inl e \<Rightarrow> Inl e
                | Inr p \<Rightarrow>
                    Inr \<lparr>url_Scheme = scheme, url_Opaque = [], url_Host = [], url_Path = p\<rparr>)))"

text \<open>\<open>url.Parse\<close>: the fragment is cut off first and unescaped last.\<close>

definition url_Parse :: "string \<Rightarrow> error + URL" where
  "url_Parse rawurl =
     (case parse (fst (split_at rawurl ''#'' True)) of
        Inl e \<Rightarrow> Inl e
      | Inr u \<Rightarrow>
          if snd (split_at rawurl ''#'' True) = [] then Inr u
          else (case unescape (snd (split_at rawurl ''#'' True)) encodeFragment of
                  Inl e \<Rightarrow> Inl e
                | Inr _ \<Rightarrow> Inr u))"

section \<open>Download file name (replyBinary, lines 105-110)\<close>

text \<open>Lines 106-107: unsafe characters become dashes, runs of dashes collapse, dashes at
  both ends are trimmed.\<close>

definition sanitize_basename :: "string \<Rightarrow> string" where
  "sanitize_basename raw =
     Trim (replace_runs (\<lambda>c. c = CHR ''-'') ''-'' (replace_unsafe safe_file_char ''-'' raw))
       (CHR ''-'')"

definition download_basename :: "URL \<Rightarrow> string" where
  "download_basename u =
     (let basename = sanitize_basename (url_Host u @ ''-'' @ path_Base (url_Path u))
      in if path_Ext basename = [] then basename @ ''.txt'' else basename)"

section \<open>\<open>encoding/hex\<close> and the store's \<open>hex(...)\<close>\<close>

definition fromHexChar :: "char \<Rightarrow> byte option" where
  "fromHexChar c =
     (if CHR ''0'' \<le> c \<and> c \<le> CHR ''9'' then Some (byte_of c - byte_of (CHR ''0''))
      else if CHR ''a'' \<le> c \<and> c \<le> CHR ''f'' then Some (byte_of c - byte_of (CHR ''a'') + 10)
      else if CHR ''A'' \<le> c \<and> c \<le> CHR ''F'' then Some (byte_of c - byte_of (CHR ''A'') + 10)
      else None)"

text \<open>
  \<open>hex.Decode\<close> reads two characters per byte and stops at the first offending
  character; an odd length is reported after its last character was checked. Like the
  library, the model returns the bytes decoded so far together with the error.
\<close>

fun Decode :: "string \<Rightarrow> string \<times> error option" where
  "Decode [] = ([], None)"
| "Decode [a] =
     (case fromHexChar a of
        None \<Rightarrow> ([], Some (InvalidByteError a))
      | Some _ \<Rightarrow> ([], Some ErrLength))"
| "Decode (a # b # rest) =
     (case fromHexChar a of
        None \<Rightarrow> ([], Some (InvalidByteError a))
      | Some x \<Rightarrow>
          (case fromHexChar b of
             None \<Rightarrow> ([], Some (InvalidByteError b))
           | Some y \<Rightarrow>
               (char_of_byte (push_bit 4 x OR y) # fst (Decode rest), snd (Decode rest))))"

definition hex_DecodeString :: "string \<Rightarrow> string \<times> error option" where
  "hex_DecodeString s = Decode s"

text \<open>
  The loader selects \<open>hex(body)\<close> and \<open>hex(request_body)\<close>: the store renders each byte of
  the blob as two hexadecimal digits. \<open>hex_encode\<close> takes the digit table: the upper-case
  one of SQL's \<open>hex\<close>, or the lower-case one of Go's \<open>hex.EncodeToString\<close>.
\<close>

definition upper_hextable :: string where
  "upper_hextable = ''0123456789ABCDEF''"

definition lower_hextable :: string where
  "lower_hextable = ''0123456789abcdef''"

definition hex_encode :: "string \<Rightarrow> string \<Rightarrow> string" where
  "hex_encode table bs =
     concat (map (\<lambda>c. [table ! unat (drop_bit 4 (byte_of c)),
                        table ! unat (byte_of c AND 0x0F)]) bs)"

section \<open>The captured transaction\<close>

type_synonym Time = int

text \<open>An \<open>http.Header\<close> is a Go map from names to value lists; the list of pairs gives its
  entries in the order in which \<open>range\<close> visits them.\<close>

type_synonym http_Header = "(string \<times> string list) list"

text \<open>
  Modelled from the spec: \<open>capture.RecordMeta\<close> and \<open>capture.Record\<close> are declared in the
  capture package, outside service.go. The fields are those of the specification's
  TransactionMeta and Transaction, under the names service.go uses for them (\<open>URL\<close>,
  \<open>DateEnd\<close>, \<open>Header\<close>, \<open>RequestHeader\<close>, \<open>Body\<close>, \<open>RequestBody\<close>) and for the columns
  it selects; the embedded \<open>RecordMeta\<close> is the field \<open>Meta\<close>.
\<close>

record RecordMeta =
  ID :: nat
  UUID :: string
  Origin :: string
  Method :: string
  Status :: int
  ContentType :: string
  ContentLength :: nat
  Host :: string
  URL :: string
  Path :: string
  Scheme :: string
  DateStart :: Time
  DateEnd :: Time
  TimeTaken :: int
  Header :: http_Header
  RequestHeader :: http_Header

record Record =
  Meta :: RecordMeta
  Body :: string
  RequestBody :: string

section \<open>The response writer\<close>

text \<open>
  What a handler leaves in its \<open>http.ResponseWriter\<close>: the header map, the status code
  once it is sent, and the bytes written. \<open>WriteHeader\<close> sends the status once, later calls
  change nothing; \<open>Write\<close> sends status 200 first when none was sent.
\<close>

record ResponseWriter =
  header :: "string \<rightharpoonup> string list"
  status_code :: "nat option"
  written :: string

definition WriteHeader :: "ResponseWriter \<Rightarrow> nat \<Rightarrow> ResponseWriter" where
  "WriteHeader w code =
     (case status_code w of None \<Rightarrow> w\<lparr>status_code := Some code\<rparr> | Some _ \<Rightarrow> w)"

definition Write :: "ResponseWriter \<Rightarrow> string \<Rightarrow> ResponseWriter" where
  "Write w b = (let w' = WriteHeader w 200 in w'\<lparr>written := written w' @ b\<rparr>)"

definition Header_Set :: "ResponseWriter \<Rightarrow> string \<Rightarrow> string \<Rightarrow> ResponseWriter" where
  "Header_Set w k v = w\<lparr>header := (header w)(k \<mapsto> [v])\<rparr>"

definition StatusOK :: nat where
  "StatusOK = 200"

definition StatusInternalServerError :: nat where
  "StatusInternalServerError = 500"

text \<open>\<open>http.StatusText\<close>, for the two status codes the service sends.\<close>

definition StatusText :: "nat \<Rightarrow> string" where
  "StatusText code =
     (if code = 200 then ''OK''
      else if code = 500 then ''Internal Server Error''
      else [])"

definition replyCode :: "ResponseWriter \<Rightarrow> nat \<Rightarrow> ResponseWriter" where
  "replyCode w httpCode = Write (WriteHeader w httpCode) (StatusText httpCode)"

text \<open>The request, as far as the handlers read it: the URL parameters of the router.
  \<open>chi.URLParam\<close> gives the last value bound to the key, and the empty string when the
  key is not bound.\<close>

record Request =
  URLParams :: "(string \<times> string) list"

definition URLParam :: "Request \<Rightarrow> string \<Rightarrow> string" where
  "URLParam r key = (case map_of (rev (URLParams r)) key of None \<Rightarrow> [] | Some v \<Rightarrow> v)"

section \<open>Content reconstructor: replyBinary\<close>

type_synonym writeOption = "8 word"

definition writeNone :: writeOption where "writeNone = 0"
definition writeWire :: writeOption where "writeWire = 1"
definition writeEmbed :: writeOption where "writeEmbed = 2"
definition writeRequestBody :: writeOption where "writeRequestBody = 4"
definition writeResponseBody :: writeOption where "writeResponseBody = 8"

text \<open>Lines 122-126: one line \<open>name: value\<close> and CRLF for every value of every name.\<close>

definition wire_lines :: "http_Header \<Rightarrow> string" where
  "wire_lines headers =
     concat (map (\<lambda>(k, vv). concat (map (\<lambda>v. k @ '': '' @ v @ [CHR 0x0D, CHR 0x0A]) vv))
                 headers)"

text \<open>
  \<open>http.ServeContent\<close> answers from the request's conditional and range headers; it is a
  parameter of the model: \<open>ServeContent w r name modtime content\<close> is the writer it leaves.
\<close>

type_synonym serve_content =
  "ResponseWriter \<Rightarrow> Request \<Rightarrow> string \<Rightarrow> Time \<Rightarrow> string \<Rightarrow> ResponseWriter"

definition replyBinary ::
  "serve_content \<Rightarrow> ResponseWriter \<Rightarrow> Request \<Rightarrow> Record \<Rightarrow> writeOption \<Rightarrow> ResponseWriter"
where
  "replyBinary ServeContent w r record opts =
     (let optRequestBody = (opts AND writeRequestBody > 0);
          optResponseBody = (opts AND writeResponseBody > 0);
          optWire = (opts AND writeWire > 0);
          optEmbed = (opts AND writeEmbed > 0)
      in
      if opts = writeNone then w
      else if optRequestBody \<and> optResponseBody then replyCode w StatusInternalServerError
      else
        (case url_Parse (URL (Meta record)) of
           Inl err \<Rightarrow> replyCode w StatusInternalServerError
         | Inr u \<Rightarrow>
             let basename = download_basename u;
                 headers = (if optResponseBody then Header (Meta record)
                            else if optRequestBody then RequestHeader (Meta record)
                            else []);
                 buf_wire = (if optWire then wire_lines headers @ [CHR 0x0D, CHR 0x0A] else []);
                 buf = buf_wire @ (if optRequestBody then RequestBody record else [])
                                @ (if optResponseBody then Body record else [])
             in
             if optRequestBody \<or> optResponseBody then
               (if optEmbed then
                  Write (Header_Set w ''Content-Type'' ''text/plain; charset=utf-8'') buf
                else
                  ServeContent
                    (Header_Set w ''Content-Disposition''
                       (''attachment; filename='' @ [CHR 0x22] @ basename @ [CHR 0x22]))
                    r [] (DateEnd (Meta record)) buf)
             else w))"

text \<open>\<open>replyJSON\<close>; \<open>json.Marshal\<close> is a parameter of the model.\<close>

record pullResponse =
  Requests :: "RecordMeta list"
  Pages :: "64 word"
  Page :: "64 word"

datatype json_data = JSON_meta RecordMeta | JSON_pull pullResponse

type_synonym json_marshal = "json_data \<Rightarrow> error + string"

definition replyJSON :: "json_marshal \<Rightarrow> ResponseWriter \<Rightarrow> json_data \<Rightarrow> ResponseWriter" where
  "replyJSON Marshal w data =
     (case Marshal data of
        Inl err \<Rightarrow> replyCode w StatusInternalServerError
      | Inr buf \<Rightarrow>
          Write
            (WriteHeader
               (Header_Set (Header_Set w ''Access-Control-Allow-Origin'' ''*'')
                  ''Content-Type'' ''application/json'')
               StatusOK)
            buf)"

section \<open>The transaction store\<close>

text \<open>
  The conditions service.go builds: \<open>db.Cond{"host LIKE": v}\<close>, \<open>db.Cond{"method": v}\<close>,
  \<open>db.Or(...)\<close>, and the result set \<open>storage.Find(...)\<close> with its \<open>OrderBy("id")\<close>, \<open>Limit\<close>,
  \<open>Offset\<close> and \<open>Where\<close>.
\<close>

datatype column =
    col_uuid | col_host | col_origin | col_path | col_content_type
  | col_method | col_scheme | col_status

datatype comparison = Equals | LIKE

datatype compound = Cond column comparison string | Or "compound list"

text \<open>\<open>conds.Or(c)\<close>: the union with one more member.\<close>

fun union_Or :: "compound \<Rightarrow> compound \<Rightarrow> compound" where
  "union_Or (Or cs) c = Or (cs @ [c])"
| "union_Or (Cond col cmp v) c = Or [Cond col cmp v, c]"

record Result =
  conds :: "compound list"
  order_by_id :: bool
  limit :: "nat option"
  offset :: int

definition Find :: "compound list \<Rightarrow> Result" where
  "Find cs = \<lparr>conds = cs, order_by_id = False, limit = None, offset = 0\<rparr>"

text \<open>
  The state of the store: its rows as the queries of service.go read them (\<open>Body\<close> and
  \<open>RequestBody\<close> hold the text the store returns for \<open>hex(body)\<close> and
  \<open>hex(request_body)\<close>), and the error, if any, with which each of the three fetching
  calls fails.
\<close>

datatype operation = OpAll | OpCount | OpOne

record storage =
  rows :: "Record list"
  failure :: "operation \<Rightarrow> error option"

text \<open>
  Modelled from the spec: the store is an external collaborator, "a queryable relational
  collection supporting equality, LIKE, ordering, limit/offset, and count". \<open>LIKE\<close> is SQL's
  pattern match (\<open>%\<close> any sequence, \<open>_\<close> any one character), case-sensitive as the
  specification has it; a column equals a value when its text is the value, the status
  code by its decimal digits; a negative offset skips nothing; the count ignores limit
  and offset.
\<close>

fun sql_like :: "string \<Rightarrow> string \<Rightarrow> bool" where
  "sql_like [] s = (s = [])"
| "sql_like (p # ps) [] = (p = CHR ''%'' \<and> sql_like ps [])"
| "sql_like (p # ps) (c # s) =
     (if p = CHR ''%'' then sql_like ps (c # s) \<or> sql_like (p # ps) s
      else (p = CHR ''_'' \<or> p = c) \<and> sql_like ps s)"

fun digits :: "nat \<Rightarrow> string" where
  "digits n =
     (if n < 10 then [char_of (48 + n)] else digits (n div 10) @ [char_of (48 + n mod 10)])"

declare digits.simps [simp del]

definition Itoa :: "int \<Rightarrow> string" where
  "Itoa i = (if i < 0 then CHR ''-'' # digits (nat (- i)) else digits (nat i))"

fun column_text :: "RecordMeta \<Rightarrow> column \<Rightarrow> string" where
  "column_text m col_uuid = UUID m"
| "column_text m col_host = Host m"
| "column_text m col_origin = Origin m"
| "column_text m col_path = Path m"
| "column_text m col_content_type = ContentType m"
| "column_text m col_method = Method m"
| "column_text m col_scheme = Scheme m"
| "column_text m col_status = Itoa (Status m)"

fun holds :: "RecordMeta \<Rightarrow> compound \<Rightarrow> bool" where
  "holds m (Cond col Equals v) = (column_text m col = v)"
| "holds m (Cond col LIKE v) = sql_like v (column_text m col)"
| "holds m (Or cs) = list_ex (holds m) cs"

definition matching :: "storage \<Rightarrow> Result \<Rightarrow> Record list" where
  "matching st res = filter (\<lambda>row. list_all (holds (Meta row)) (conds res)) (rows st)"

definition window :: "Result \<Rightarrow> Record list \<Rightarrow> Record list" where
  "window res xs =
     (let ordered = (if order_by_id res then sort_key (\<lambda>row. ID (Meta row)) xs else xs);
          skipped = drop (nat (offset res)) ordered
      in case limit res of None \<Rightarrow> skipped | Some n \<Rightarrow> take n skipped)"

definition res_All :: "storage \<Rightarrow> Result \<Rightarrow> error + RecordMeta list" where
  "res_All st res =
     (case failure st OpAll of
        Some e \<Rightarrow> Inl e
      | None \<Rightarrow> Inr (map Meta (window res (matching st res))))"

definition res_Count :: "storage \<Rightarrow> Result \<Rightarrow> error + 64 word" where
  "res_Count st res =
     (case failure st OpCount of
        Some e \<Rightarrow> Inl e
      | None \<Rightarrow> Inr (of_nat (length (matching st res))))"

definition res_One :: "storage \<Rightarrow> Result \<Rightarrow> error + Record" where
  "res_One st res =
     (case failure st OpOne of
        Some e \<Rightarrow> Inl e
      | None \<Rightarrow>
          (case window res (matching st res) of
             [] \<Rightarrow> Inl ErrNoMoreRows
           | row # _ \<Rightarrow> Inr row))"

section \<open>Transaction loader: getCaptureRecord\<close>

text \<open>The \<open>Select\<close> list of lines 179-197 names every column of the record but \<open>id\<close>: in
  the record that \<open>One\<close> fills, the field \<open>ID\<close> keeps Go's zero value.\<close>

definition Select_columns :: "Record \<Rightarrow> Record" where
  "Select_columns row = row\<lparr>Meta := (Meta row)\<lparr>ID := 0\<rparr>\<rparr>"

text \<open>The Go function returns a pair \<open>(*capture.Record, error)\<close>; so does the model, with
  \<open>None\<close> for \<open>nil\<close>.\<close>

definition getCaptureRecord :: "storage \<Rightarrow> string \<Rightarrow> Record option \<times> error option" where
  "getCaptureRecord st uuid =
     (case res_One st (Find [Cond col_uuid Equals uuid]) of
        Inl err \<Rightarrow> (None, Some err)
      | Inr row \<Rightarrow>
          (case hex_DecodeString (RequestBody (Select_columns row)) of
             (body, Some err) \<Rightarrow> (None, Some err)
           | (body, None) \<Rightarrow>
               (case hex_DecodeString (Body ((Select_columns row)\<lparr>RequestBody := body\<rparr>)) of
                  (body', Some err) \<Rightarrow> (None, Some err)
                | (body', None) \<Rightarrow>
                    (Some ((Select_columns row)\<lparr>RequestBody := body, Body := body'\<rparr>),
                     None))))"

section \<open>Endpoints\<close>

definition recordMetaHandler ::
  "json_marshal \<Rightarrow> storage \<Rightarrow> ResponseWriter \<Rightarrow> Request \<Rightarrow> ResponseWriter"
where
  "recordMetaHandler Marshal st w r =
     (case getCaptureRecord st (URLParam r ''uuid'') of
        (Some record, None) \<Rightarrow> replyJSON Marshal w (JSON_meta (Meta record))
      | _ \<Rightarrow> replyCode w StatusInternalServerError)"

text \<open>\<open>recordHandler\<close> tests \<open>err != nil\<close> only; the loader returns a record exactly when
  it returns no error.\<close>

definition recordHandler ::
  "serve_content \<Rightarrow> storage \<Rightarrow> ResponseWriter \<Rightarrow> Request \<Rightarrow> writeOption \<Rightarrow> ResponseWriter"
where
  "recordHandler ServeContent st w r opts =
     (case getCaptureRecord st (URLParam r ''uuid'') of
        (Some record, None) \<Rightarrow> replyBinary ServeContent w r record opts
      | _ \<Rightarrow> replyCode w StatusInternalServerError)"

definition requestContentHandler ::
  "serve_content \<Rightarrow> storage \<Rightarrow> ResponseWriter \<Rightarrow> Request \<Rightarrow> ResponseWriter" where
  "requestContentHandler ServeContent st w r =
     recordHandler ServeContent st w r writeRequestBody"

definition requestWireHandler ::
  "serve_content \<Rightarrow> storage \<Rightarrow> ResponseWriter \<Rightarrow> Request \<Rightarrow> ResponseWriter" where
  "requestWireHandler ServeContent st w r =
     recordHandler ServeContent st w r (writeRequestBody OR writeWire)"

definition requestEmbedHandler ::
  "serve_content \<Rightarrow> storage \<Rightarrow> ResponseWriter \<Rightarrow> Request \<Rightarrow> ResponseWriter" where
  "requestEmbedHandler ServeContent st w r =
     recordHandler ServeContent st w r (writeRequestBody OR writeEmbed)"

definition responseContentHandler ::
  "serve_content \<Rightarrow> storage \<Rightarrow> ResponseWriter \<Rightarrow> Request \<Rightarrow> ResponseWriter" where
  "responseContentHandler ServeContent st w r =
     recordHandler ServeContent st w r writeResponseBody"

definition responseWireHandler ::
  "serve_content \<Rightarrow> storage \<Rightarrow> ResponseWriter \<Rightarrow> Request \<Rightarrow> ResponseWriter" where
  "responseWireHandler ServeContent st w r =
     recordHandler ServeContent st w r (writeResponseBody OR writeWire)"

definition responseEmbedHandler ::
  "serve_content \<Rightarrow> storage \<Rightarrow> ResponseWriter \<Rightarrow> Request \<Rightarrow> ResponseWriter" where
  "responseEmbedHandler ServeContent st w r =
     recordHandler ServeContent st w r (writeResponseBody OR writeEmbed)"

section \<open>Listing: capturesHandler\<close>

subsection \<open>\<open>strconv.ParseUint(s, 10, 64)\<close>\<close>

fun parse_digits :: "nat \<Rightarrow> string \<Rightarrow> error + nat" where
  "parse_digits n [] = Inr n"
| "parse_digits n (c # cs) =
     (if \<not> is_digit c then Inl ErrSyntax
      else
        let n1 = n * 10 + (of_char c - 48)
        in if 2 ^ 64 \<le> n1 then Inl ErrRange else parse_digits n1 cs)"

definition ParseUint :: "string \<Rightarrow> error + 64 word" where
  "ParseUint s =
     (if s = [] then Inl ErrSyntax
      else (case parse_digits 0 s of Inl e \<Rightarrow> Inl e | Inr n \<Rightarrow> Inr (of_nat n)))"

subsection \<open>The float64 arithmetic of the page count\<close>

text \<open>
  \<open>uint(math.Ceil(float64(c) / float64(pageSize)))\<close> goes through IEEE 754 binary64.
  A finite non-negative float64 is a pair \<open>(m, e)\<close> standing for \<open>m \<cdot> 2\<^sup>e\<close>; a conversion or
  a division gives the value with a 53-bit significand nearest to the exact result,
  ties to the even significand. The exponent range and the special values are left out:
  the values here lie between 1/50 and \<open>2\<^sup>6\<^sup>4\<close>.
\<close>

type_synonym float64 = "nat \<times> int"

fun bit_length :: "nat \<Rightarrow> nat" where
  "bit_length n = (if n = 0 then 0 else Suc (bit_length (n div 2)))"

declare bit_length.simps [simp del]

definition round_half_even :: "nat \<Rightarrow> nat \<Rightarrow> nat" where
  "round_half_even a b =
     (let q = a div b; r = a mod b
      in if 2 * r < b \<or> (2 * r = b \<and> even q) then q else q + 1)"

text \<open>The float64 nearest to the ratio \<open>a / b\<close>, for \<open>b > 0\<close>.\<close>

definition float64_round :: "nat \<Rightarrow> nat \<Rightarrow> float64" where
  "float64_round a b =
     (if a = 0 then (0, 0)
      else
        let e0 = int (bit_length a) - int (bit_length b) - 53;
            e = (if a * 2 ^ nat (- e0) < 2 ^ 53 * (b * 2 ^ nat e0) then e0 else e0 + 1)
        in (round_half_even (a * 2 ^ nat (- e)) (b * 2 ^ nat e), e))"

definition float64_of_nat :: "nat \<Rightarrow> float64" where
  "float64_of_nat c = float64_round c 1"

definition float64_div :: "float64 \<Rightarrow> float64 \<Rightarrow> float64" where
  "float64_div x y =
     float64_round (fst x * 2 ^ nat (snd x - snd y)) (fst y * 2 ^ nat (snd y - snd x))"

definition Ceil :: "float64 \<Rightarrow> float64" where
  "Ceil x =
     (if 0 \<le> snd x then x
      else ((fst x + 2 ^ nat (- snd x) - 1) div 2 ^ nat (- snd x), 0))"

text \<open>The conversion \<open>uint(f)\<close> drops the fraction.\<close>

definition uint_of_float64 :: "float64 \<Rightarrow> 64 word" where
  "uint_of_float64 x =
     (if 0 \<le> snd x then of_nat (fst x * 2 ^ nat (snd x))
      else of_nat (fst x div 2 ^ nat (- snd x)))"

definition pageSize :: nat where
  "pageSize = 50"

definition page_count :: "64 word \<Rightarrow> 64 word" where
  "page_count c =
     uint_of_float64 (Ceil (float64_div (float64_of_nat (unat c)) (float64_of_nat pageSize)))"

subsection \<open>The handler\<close>

text \<open>Lines 297-316: one union per term over the seven columns, all in one union.\<close>

definition term_conds :: "string \<Rightarrow> compound" where
  "term_conds term =
     Or [Cond col_host LIKE (''%'' @ term @ ''%''),
         Cond col_origin LIKE (''%'' @ term @ ''%''),
         Cond col_path LIKE (''%'' @ term @ ''%''),
         Cond col_content_type LIKE (''%'' @ term @ ''%''),
         Cond col_method Equals term,
         Cond col_scheme Equals term,
         Cond col_status Equals term]"

definition query_conds :: "string \<Rightarrow> compound" where
  "query_conds q =
     foldl (\<lambda>conds term. union_Or conds (term_conds term)) (Or []) (Split q (CHR '' ''))"

text \<open>Lines 293-316: the result set of the listing, for the sanitized query \<open>q\<close> and the
  page. \<open>uint\<close> and \<open>int\<close> are 64 bits wide: \<open>int(response.Page-1)\<close> reads the word as a
  signed number and the product with \<open>pageSize\<close> wraps.\<close>

definition listing_query :: "string \<Rightarrow> 64 word \<Rightarrow> Result" where
  "listing_query q page =
     (let res = (Find [])\<lparr>order_by_id := True, limit := Some pageSize,
                          offset := sint (of_nat pageSize * (page - 1) :: 64 word)\<rparr>
      in if q \<noteq> [] then res\<lparr>conds := [query_conds q]\<rparr> else res)"

text \<open>Lines 283-290: the page number; a parameter that does not parse leaves 0, and 0
  becomes 1.\<close>

definition requested_page :: "string \<Rightarrow> 64 word" where
  "requested_page s =
     (let page = (case ParseUint s of Inr page \<Rightarrow> page | Inl err \<Rightarrow> 0)
      in if page < 1 then 1 else page)"

definition capturesHandler ::
  "json_marshal \<Rightarrow> storage \<Rightarrow> ResponseWriter \<Rightarrow> Request \<Rightarrow> ResponseWriter"
where
  "capturesHandler Marshal st w r =
     (let q = sanitize_query (URLParam r ''q'');
          page = requested_page (URLParam r ''page'');
          res = listing_query q page
      in
      case res_All st res of
        Inl err \<Rightarrow> replyCode w StatusInternalServerError
      | Inr requests \<Rightarrow>
          replyJSON Marshal w
            (JSON_pull \<lparr>Requests = requests,
                        Pages = (case res_Count st res of Inr c \<Rightarrow> page_count c | Inl err \<Rightarrow> 0),
                        Page = page\<rparr>))"

section \<open>Routes: startServices, lines 337-358\<close>

text \<open>\<open>http.NotFound\<close>, the router's answer to a path it has no route for.\<close>

definition NotFound :: "ResponseWriter \<Rightarrow> ResponseWriter" where
  "NotFound w =
     Write
       (WriteHeader
          (Header_Set (Header_Set w ''Content-Type'' ''text/plain; charset=utf-8'')
             ''X-Content-Type-Options'' ''nosniff'')
          404)
       (''404 page not found'' @ [CHR 0x0A])"

text \<open>
  A GET request reaches the router as the segments of its URL path (a closing slash
  aside) and the parameters of its URL query. \<open>chi.URLParam\<close> gives a handler the text that
  a placeholder of the matched route pattern stands for. The only placeholder of the
  patterns of lines 340-355 is \<open>{uuid}\<close>, so it is the only URL parameter that a handler
  finds (the wildcard entries of the mounted sub-routers are left out): no pattern holds
  \<open>{q}\<close> or \<open>{page}\<close>. The query of the URL is no URL parameter, and no handler reads
  \<open>r.URL.Query()\<close>: the last argument reaches no handler.
\<close>

definition routes ::
  "json_marshal \<Rightarrow> serve_content \<Rightarrow> storage \<Rightarrow> ResponseWriter \<Rightarrow> string list
     \<Rightarrow> (string \<times> string) list \<Rightarrow> ResponseWriter"
where
  "routes Marshal ServeContent st w segments query =
     (case segments of
        [records] \<Rightarrow>
          if records = ''records'' then capturesHandler Marshal st w \<lparr>URLParams = []\<rparr>
          else NotFound w
      | [records, uuid] \<Rightarrow>
          if records = ''records''
          then recordMetaHandler Marshal st w \<lparr>URLParams = [(''uuid'', uuid)]\<rparr>
          else NotFound w
      | [records, uuid, side] \<Rightarrow>
          if records = ''records'' \<and> side = ''request''
          then requestContentHandler ServeContent st w \<lparr>URLParams = [(''uuid'', uuid)]\<rparr>
          else if records = ''records'' \<and> side = ''response''
          then responseContentHandler ServeContent st w \<lparr>URLParams = [(''uuid'', uuid)]\<rparr>
          else NotFound w
      | [records, uuid, side, form] \<Rightarrow>
          if records = ''records'' \<and> side = ''request'' \<and> form = ''raw''
          then requestWireHandler ServeContent st w \<lparr>URLParams = [(''uuid'', uuid)]\<rparr>
          else if records = ''records'' \<and> side = ''request'' \<and> form = ''embed''
          then requestEmbedHandler ServeContent st w \<lparr>URLParams = [(''uuid'', uuid)]\<rparr>
          else if records = ''records'' \<and> side = ''response'' \<and> form = ''raw''
          then responseWireHandler ServeContent st w \<lparr>URLParams = [(''uuid'', uuid)]\<rparr>
          else if records = ''records'' \<and> side = ''response'' \<and> form = ''embed''
          then responseEmbedHandler ServeContent st w \<lparr>URLParams = [(''uuid'', uuid)]\<rparr>
          else NotFound w
      | _ \<Rightarrow> NotFound w)"

section \<open>The search as the specification words it\<close>

text \<open>\<open>contains s t\<close>: \<open>t\<close> occurs in \<open>s\<close> as it stands (\<open>strings.Contains\<close>). A term matches a
  record when host, origin, path or content type contains it, or method, scheme or
  status equals it; a record matches a list of terms when some term matches it.\<close>

definition contains :: "string \<Rightarrow> string \<Rightarrow> bool" where
  "contains s t \<longleftrightarrow> Index s t \<noteq> None"

definition term_matches :: "RecordMeta \<Rightarrow> string \<Rightarrow> bool" where
  "term_matches m t \<longleftrightarrow>
     contains (Host m) t \<or> contains (Origin m) t \<or> contains (Path m) t \<or>
     contains (ContentType m) t \<or> Method m = t \<or> Scheme m = t \<or> Itoa (Status m) = t"

definition spec_matches :: "RecordMeta \<Rightarrow> string list \<Rightarrow> bool" where
  "spec_matches m terms = list_ex (term_matches m) terms"

text \<open>The terms of a query string as the specification has them: its words, the maximal
  runs of characters that are not whitespace; the empty string has no term. The first
  argument is the word being read.\<close>

fun spec_terms_from :: "string \<Rightarrow> string \<Rightarrow> string list" where
  "spec_terms_from w [] = (if w = [] then [] else [w])"
| "spec_terms_from w (c # cs) =
     (if is_space c then (if w = [] then spec_terms_from [] cs else w # spec_terms_from [] cs)
      else spec_terms_from (w @ [c]) cs)"

definition spec_terms :: "string \<Rightarrow> string list" where
  "spec_terms q = spec_terms_from [] q"

section \<open>Example data\<close>

text \<open>A writer nothing was sent to, one captured transaction as the loader returns it, the
  row the store holds for it, and a store with that row.\<close>

definition fresh_writer :: ResponseWriter where
  "fresh_writer = \<lparr>header = Map.empty, status_code = None, written = []\<rparr>"

definition example_meta :: RecordMeta where
  "example_meta =
     \<lparr>ID = 1, UUID = ''u1'', Origin = ''10.0.0.1'', Method = ''GET'', Status = 200,
      ContentType = ''text/html'', ContentLength = 5, Host = ''a.b'',
      URL = ''http://a.b/c?d=e'', Path = ''/c'', Scheme = ''http'', DateStart = 0,
      DateEnd = 1, TimeTaken = 1, Header = [(''X-Test'', [''1'', ''2''])],
      RequestHeader = [(''X-Test'', [''1'', ''2''])]\<rparr>"

definition example_record :: Record where
  "example_record = \<lparr>Meta = example_meta, Body = ''hello'', RequestBody = ''ping''\<rparr>"

text \<open>A transaction whose stored URL does not parse: it has no scheme before its colon.\<close>

definition bad_url_record :: Record where
  "bad_url_record = example_record\<lparr>Meta := example_meta\<lparr>URL := '':''\<rparr>\<rparr>"

definition stored_record :: Record where
  "stored_record = \<lparr>Meta = example_meta, Body = ''68656C6C6F'', RequestBody = ''70696E67''\<rparr>"

definition example_store :: storage where
  "example_store = \<lparr>rows = [stored_record], failure = (\<lambda>op. None)\<rparr>"

definition post_row :: Record where
  "post_row =
     \<lparr>Meta = \<lparr>ID = 2, UUID = ''u2'', Origin = ''10.0.0.2'', Method = ''POST'', Status = 404,
              ContentType = ''application/json'', ContentLength = 0, Host = ''x.y'',
              URL = ''https://x.y/login'', Path = ''/login'', Scheme = ''https'',
              DateStart = 2, DateEnd = 3, TimeTaken = 1, Header = [], RequestHeader = []\<rparr>,
      Body = [], RequestBody = []\<rparr>"

definition two_row_store :: storage where
  "two_row_store = \<lparr>rows = [post_row, stored_record], failure = (\<lambda>op. None)\<rparr>"

text \<open>A store of 120 transactions, numbered from 1.\<close>

definition numbered_row :: "nat \<Rightarrow> Record" where
  "numbered_row i = stored_record\<lparr>Meta := example_meta\<lparr>ID := i, UUID := ''u'' @ digits i\<rparr>\<rparr>"

definition store_of_120 :: storage where
  "store_of_120 = \<lparr>rows = map numbered_row [1..<121], failure = (\<lambda>op. None)\<rparr>"

text \<open>A store whose body text is not hexadecimal, a store that fails every call, and a
  store that fails the count only.\<close>

definition corrupt_store :: storage where
  "corrupt_store =
     \<lparr>rows = [stored_record\<lparr>Body := ''68656C6C6''\<rparr>], failure = (\<lambda>op. None)\<rparr>"

definition failing_store :: storage where
  "failing_store = \<lparr>rows = [stored_record], failure = (\<lambda>op. Some (StoreFailure ''down''))\<rparr>"

definition count_failing_store :: storage where
  "count_failing_store =
     \<lparr>rows = [stored_record],
      failure = (\<lambda>op. if op = OpCount then Some (StoreFailure ''count'') else None)\<rparr>"

text \<open>A \<open>json.Marshal\<close> that succeeds with a given encoding, and an \<open>http.ServeContent\<close>
  that answers a request without conditions or ranges: the whole content.\<close>

definition marshal_as :: "string \<Rightarrow> json_marshal" where
  "marshal_as buf data = Inr buf"

definition serve_whole :: serve_content where
  "serve_whole w r name modtime content = Write w content"

section \<open>Library facts\<close>

lemmas char_classes =
  is_digit_def is_lower_def is_upper_def is_space_def safe_char_def safe_file_char_def

lemma rune_size_ascii [simp]: "c < CHR 0x80 \<Longrightarrow> rune_size (c # cs) = 1"
  by (simp add: rune_size.simps)

lemma rune_size_le4: "rune_size s \<le> 4"
  by (cases s) (auto simp: rune_size.simps Let_def)

lemma rune_size_nth:
  assumes "i < rune_size (c # cs) - 1"
  shows "i < length cs \<and> CHR 0x80 \<le> cs ! i"
proof -
  have "rune_size (c # cs) \<le> 4" by (rule rune_size_le4)
  with assms have "i = 0 \<or> i = 1 \<or> i = 2" by arith
  with assms show ?thesis
    by (auto simp: rune_size.simps Let_def continuation_def less_eq_char_def less_char_def
          split: if_splits)
qed

lemma rune_size_tail:
  assumes "x \<in> set (take (rune_size (c # cs) - 1) cs)"
  shows "CHR 0x80 \<le> x"
proof -
  from assms obtain i where i: "i < rune_size (c # cs) - 1" "i < length cs" "x = cs ! i"
    by (auto simp: in_set_conv_nth)
  with rune_size_nth [OF i(1)] show ?thesis by simp
qed

lemma safe_char_ascii: "safe_char c \<Longrightarrow> c < CHR 0x80"
  by (auto simp: char_classes less_eq_char_def less_char_def)

section \<open>The query sanitizer\<close>

lemma spec_runs_skip:
  "\<forall>x \<in> set xs. \<not> (safe_char x \<and> \<not> is_space x) \<Longrightarrow>
   spec_runs True (xs @ ys) = spec_runs True ys"
  by (induction xs) auto

lemma spec_runs_drop_rune:
  "spec_runs True (drop (rune_size (c # cs) - 1) cs) = spec_runs True cs"
proof -
  let ?k = "rune_size (c # cs) - 1"
  have "\<forall>x \<in> set (take ?k cs). \<not> (safe_char x \<and> \<not> is_space x)"
    using rune_size_tail [of _ c cs] safe_char_ascii
    by (fastforce simp: less_eq_char_def less_char_def)
  from spec_runs_skip [OF this, of "drop ?k cs"] show ?thesis by simp
qed

lemma sanitize_runs:
  "replace_runs is_space '' '' (replace_unsafe safe_char '' '' s) = spec_runs False s \<and>
   replace_runs is_space '' '' (dropWhile is_space (replace_unsafe safe_char '' '' s))
     = spec_runs True s"
proof (induction safe_char "'' ''" s rule: replace_unsafe.induct)
  case 1
  show ?case by simp
next
  case (2 c cs)
  show ?case
  proof (cases "c < CHR 0x80 \<and> safe_char c")
    case True
    with 2 show ?thesis by (cases "is_space c") auto
  next
    case False
    let ?rest = "drop (rune_size (c # cs) - 1) cs"
    have sp: "is_space (CHR '' '')" by (simp add: is_space_def)
    have nk: "\<not> safe_char c" using False safe_char_ascii by blast
    have unf: "replace_unsafe safe_char '' '' (c # cs)
                 = CHR '' '' # replace_unsafe safe_char '' '' ?rest"
      using False by auto
    have ih: "replace_runs is_space '' ''
                (dropWhile is_space (replace_unsafe safe_char '' '' ?rest)) = spec_runs True cs"
      using 2(2) [OF False] by (simp only: spec_runs_drop_rune)
    show ?thesis
      unfolding unf using sp nk ih by simp
  qed
qed

text \<open>
  C8. For every raw query string the sanitizer keeps the characters of \<open>[0-9a-zA-Z.]\<close> and
  leaves exactly one space for each maximal run of other characters, removed ones and
  whitespace alike: it computes what the specification describes. On \<open>a<script>b\<close> the
  two brackets each leave one space.
\<close>

theorem sanitize_query_runs:
  "sanitize_query q = spec_sanitize q \<and> sanitize_query ''a<script>b'' = ''a script b''"
proof
  show "sanitize_query q = spec_sanitize q"
    by (simp add: sanitize_query_def spec_sanitize_def sanitize_runs)
  show "sanitize_query ''a<script>b'' = ''a script b''"
    by code_simp
qed

section \<open>The download file name\<close>

text \<open>No dot survives the sanitizer, so \<open>path.Ext\<close> of the sanitized name is always empty
  and \<open>.txt\<close> is always appended.\<close>

lemma replace_unsafe_chars: "set (replace_unsafe safe repl s) \<subseteq> {c. safe c} \<union> set repl"
  by (induction safe repl s rule: replace_unsafe.induct) auto

lemma replace_runs_chars: "set (replace_runs p repl s) \<subseteq> set s \<union> set repl"
proof (induction p repl s rule: replace_runs.induct)
  case (1 p repl)
  show ?case by simp
next
  case (2 p repl c cs)
  have "set (dropWhile p cs) \<subseteq> set cs" by (auto dest: set_dropWhileD)
  with 2 show ?case by (cases "p c") auto
qed

lemma Trim_chars: "set (Trim s c) \<subseteq> set s"
  by (auto simp: Trim_def dest!: set_dropWhileD)

lemma sanitize_basename_no_dot: "CHR ''.'' \<notin> set (sanitize_basename raw)"
proof -
  have "\<not> safe_file_char (CHR ''.'')" by (simp add: char_classes)
  with replace_unsafe_chars [of safe_file_char "''-''" raw]
  have "CHR ''.'' \<notin> set (replace_unsafe safe_file_char ''-'' raw)" by auto
  with replace_runs_chars [of "\<lambda>c. c = CHR ''-''" "''-''" "replace_unsafe safe_file_char ''-'' raw"]
  have "CHR ''.'' \<notin> set (replace_runs (\<lambda>c. c = CHR ''-'') ''-''
      (replace_unsafe safe_file_char ''-'' raw))" by auto
  with Trim_chars show ?thesis unfolding sanitize_basename_def by blast
qed

lemma ext_scan_no_dot: "CHR ''.'' \<notin> set rs \<Longrightarrow> ext_scan rs acc = []"
  by (induction rs arbitrary: acc) auto

lemma download_basename_txt:
  "download_basename u
     = sanitize_basename (url_Host u @ ''-'' @ path_Base (url_Path u)) @ ''.txt''"
  using sanitize_basename_no_dot [of "url_Host u @ ''-'' @ path_Base (url_Path u)"]
  by (simp add: download_basename_def Let_def path_Ext_def ext_scan_no_dot)

text \<open>
  C5, as the code has it. The dot is outside \<open>[0-9a-zA-Z-_]\<close> and becomes a dash like every
  other unsafe character: \<open>http://a.b/c?d=e\<close>, which parses to host \<open>a.b\<close> and path \<open>/c\<close>,
  gets the file name \<open>a-b-c.txt\<close>, and the raw candidate \<open>a.b--c\<close> is sanitized to \<open>a-b-c\<close>.
\<close>

theorem download_basename_example:
  "url_Parse ''http://a.b/c?d=e''
     = Inr \<lparr>url_Scheme = ''http'', url_Opaque = [], url_Host = ''a.b'', url_Path = ''/c''\<rparr> \<and>
   download_basename
       \<lparr>url_Scheme = ''http'', url_Opaque = [], url_Host = ''a.b'', url_Path = ''/c''\<rparr>
     = ''a-b-c.txt'' \<and>
   sanitize_basename ''a.b--c'' = ''a-b-c''"
  by code_simp

text \<open>C5 as the specification states it fails: the file name is not \<open>a.b-c.txt\<close>, and
  \<open>a.b--c\<close> is not sanitized to \<open>a.b-c\<close>. Had the dot been kept, \<open>a.b-c\<close> would have
  the extension \<open>.b-c\<close> and would get no \<open>.txt\<close>.\<close>

theorem download_basename_dot_replaced:
  "download_basename
       \<lparr>url_Scheme = ''http'', url_Opaque = [], url_Host = ''a.b'', url_Path = ''/c''\<rparr>
     \<noteq> ''a.b-c.txt'' \<and>
   sanitize_basename ''a.b--c'' \<noteq> ''a.b-c'' \<and>
   path_Ext ''a.b-c'' = ''.b-c''"
  by code_simp

section \<open>Hex round trip\<close>

lemma nibble_cases:
  fixes n :: byte
  assumes "n < 16"
  shows "n \<in> {0, 1, 2, 3, 4, 5, 6, 7, 8, 9, 10, 11, 12, 13, 14, 15}"
proof -
  from assms have "unat n < 16" by (simp add: word_less_nat_alt)
  then have "unat n = 0 \<or> unat n = 1 \<or> unat n = 2 \<or> unat n = 3 \<or> unat n = 4 \<or> unat n = 5
     \<or> unat n = 6 \<or> unat n = 7 \<or> unat n = 8 \<or> unat n = 9 \<or> unat n = 10 \<or> unat n = 11
     \<or> unat n = 12 \<or> unat n = 13 \<or> unat n = 14 \<or> unat n = 15" by arith
  then have "unat n \<in> {0, 1, 2, 3, 4, 5, 6, 7, 8, 9, 10, 11, 12, 13, 14, 15}" by blast
  then have "of_nat (unat n)
      \<in> ((of_nat ` {0, 1, 2, 3, 4, 5, 6, 7, 8, 9, 10, 11, 12, 13, 14, 15}) :: byte set)"
    by (rule imageI)
  then show ?thesis by simp
qed

lemma fromHexChar_upper:
  fixes n :: byte
  assumes "n < 16"
  shows "fromHexChar (upper_hextable ! unat n) = Some n"
  using nibble_cases [OF assms]
  by (auto simp: upper_hextable_def fromHexChar_def byte_of_def)

lemma fromHexChar_lower:
  fixes n :: byte
  assumes "n < 16"
  shows "fromHexChar (lower_hextable ! unat n) = Some n"
  using nibble_cases [OF assms]
  by (auto simp: lower_hextable_def fromHexChar_def byte_of_def)

lemma fifteen_mask: "(15 :: byte) = mask 4"
  by (simp add: mask_eq_exp_minus_1)

lemma hi_nibble: "drop_bit 4 (x :: byte) < 16"
proof -
  have "unat (drop_bit 4 x) = unat x div 16"
    by (simp add: unat_drop_bit_eq drop_bit_eq_div unat_div)
  moreover have "unat x < 256" using unsigned_less [of x, where 'a = nat] by simp
  ultimately show ?thesis by (simp add: word_less_nat_alt)
qed

lemma lo_nibble: "(x :: byte) AND 0x0F < 16"
proof -
  have "unat (x AND mask 4) = unat x mod 16"
    by (simp add: unsigned_take_bit_eq take_bit_eq_mod unat_mod flip: take_bit_eq_mask)
  then show ?thesis by (simp add: word_less_nat_alt fifteen_mask)
qed

lemma nibbles_join: "push_bit 4 (drop_bit 4 (x :: byte)) OR (x AND 0x0F) = x"
  unfolding fifteen_mask by (rule bit_eqI) (auto simp: bit_simps)

lemma char_of_byte_of [simp]: "char_of_byte (byte_of c) = c"
proof -
  have "(of_char c :: byte) = of_nat (of_char c)" by (simp only: of_nat_of_char)
  then have "unat (of_char c :: byte) = of_char c mod 256" by (simp only: unat_of_nat) simp
  then show ?thesis by (simp add: char_of_byte_def byte_of_def)
qed

lemma Decode_hex_encode_upper: "Decode (hex_encode upper_hextable bs) = (bs, None)"
  by (induction bs)
     (simp_all add: hex_encode_def fromHexChar_upper hi_nibble lo_nibble nibbles_join)

lemma Decode_hex_encode_lower: "Decode (hex_encode lower_hextable bs) = (bs, None)"
  by (induction bs)
     (simp_all add: hex_encode_def fromHexChar_lower hi_nibble lo_nibble nibbles_join)

text \<open>The hex text of a byte sequence of any length, in the upper-case digits of the
  store's \<open>hex(...)\<close> as in the lower-case digits of Go's encoder, is decoded to the same
  bytes and no error.\<close>

lemma hex_round_trip:
  "hex_DecodeString (hex_encode upper_hextable bs) = (bs, None) \<and>
   hex_DecodeString (hex_encode lower_hextable bs) = (bs, None)"
  by (simp add: hex_DecodeString_def Decode_hex_encode_upper Decode_hex_encode_lower)

section \<open>The content reconstructor\<close>

lemma url_Parse_example:
  "url_Parse (URL (Meta example_record))
     = Inr \<lparr>url_Scheme = ''http'', url_Opaque = [], url_Host = ''a.b'', url_Path = ''/c''\<rparr>"
  by code_simp

lemma url_Parse_bad: "url_Parse (URL (Meta bad_url_record)) = Inl MissingProtocolScheme"
  by code_simp

lemma replyCode_fresh:
  "replyCode fresh_writer StatusInternalServerError
     = \<lparr>header = Map.empty, status_code = Some 500, written = ''Internal Server Error''\<rparr>"
  by (simp add: replyCode_def Write_def WriteHeader_def StatusText_def fresh_writer_def
        StatusInternalServerError_def)

lemmas write_flags =
  writeNone_def writeWire_def writeEmbed_def writeRequestBody_def writeResponseBody_def

text \<open>
  C2. For every transaction and every option set with both body flags, the reconstructor
  answers with \<open>replyCode(w, 500)\<close> and nothing else: what it writes is the status text,
  after what the writer held, and on a writer nothing was sent to the status is 500.
  No byte of either body is written.
\<close>

theorem replyBinary_both_bodies:
  assumes "opts AND writeRequestBody > 0" and "opts AND writeResponseBody > 0"
  shows "replyBinary ServeContent w r record opts = replyCode w StatusInternalServerError \<and>
         written (replyBinary ServeContent w r record opts)
           = written w @ ''Internal Server Error'' \<and>
         (status_code w = None \<longrightarrow>
            status_code (replyBinary ServeContent w r record opts) = Some 500)"
proof -
  from assms(1) have "opts \<noteq> writeNone" by (auto simp: writeNone_def)
  with assms have "replyBinary ServeContent w r record opts
      = replyCode w StatusInternalServerError"
    by (simp add: replyBinary_def Let_def)
  then show ?thesis
    by (simp add: replyCode_def Write_def WriteHeader_def StatusText_def
          StatusInternalServerError_def split: option.splits)
qed

theorem replyBinary_both_bodies_witness:
  "(writeRequestBody OR writeResponseBody) AND writeRequestBody > 0 \<and>
   (writeRequestBody OR writeResponseBody) AND writeResponseBody > 0 \<and>
   status_code fresh_writer = None \<and>
   written (replyBinary serve_whole fresh_writer \<lparr>URLParams = []\<rparr> example_record
              (writeRequestBody OR writeResponseBody)) = ''Internal Server Error'' \<and>
   status_code (replyBinary serve_whole fresh_writer \<lparr>URLParams = []\<rparr> example_record
              (writeRequestBody OR writeResponseBody)) = Some 500"
proof -
  have a: "(writeRequestBody OR writeResponseBody) AND writeRequestBody > 0"
    by (simp add: write_flags)
  have b: "(writeRequestBody OR writeResponseBody) AND writeResponseBody > 0"
    by (simp add: write_flags)
  have c: "status_code fresh_writer = None \<and> written fresh_writer = []"
    by (simp add: fresh_writer_def)
  note t = replyBinary_both_bodies [OF a b, of serve_whole fresh_writer "\<lparr>URLParams = []\<rparr>"
      example_record]
  from t have w: "written (replyBinary serve_whole fresh_writer \<lparr>URLParams = []\<rparr>
      example_record (writeRequestBody OR writeResponseBody)) = ''Internal Server Error''"
    using c by (elim conjE) simp
  from t have s: "status_code (replyBinary serve_whole fresh_writer \<lparr>URLParams = []\<rparr>
      example_record (writeRequestBody OR writeResponseBody)) = Some 500"
    using c by (elim conjE) blast
  from a b c w s show ?thesis by blast
qed

text \<open>
  C10, as the code has it. When neither body flag is set and either no flag at all is
  set or the stored URL parses, the reconstructor returns the writer as it received it:
  no header, no status, no byte.
\<close>

theorem replyBinary_no_body:
  assumes "\<not> opts AND writeRequestBody > 0" and "\<not> opts AND writeResponseBody > 0"
    and "opts = writeNone \<or> url_Parse (URL (Meta record)) = Inr u"
  shows "replyBinary ServeContent w r record opts = w"
  using assms by (auto simp: replyBinary_def Let_def)

theorem replyBinary_no_body_witness:
  "\<not> (writeWire OR writeEmbed) AND writeRequestBody > 0 \<and>
   \<not> (writeWire OR writeEmbed) AND writeResponseBody > 0 \<and>
   url_Parse (URL (Meta example_record))
     = Inr \<lparr>url_Scheme = ''http'', url_Opaque = [], url_Host = ''a.b'', url_Path = ''/c''\<rparr> \<and>
   replyBinary serve_whole fresh_writer \<lparr>URLParams = []\<rparr> example_record
     (writeWire OR writeEmbed) = fresh_writer"
proof -
  have a: "\<not> (writeWire OR writeEmbed) AND writeRequestBody > 0"
    by (simp add: write_flags)
  have b: "\<not> (writeWire OR writeEmbed) AND writeResponseBody > 0"
    by (simp add: write_flags)
  note c = url_Parse_example
  from replyBinary_no_body [OF a b disjI2, OF c, of serve_whole fresh_writer
      "\<lparr>URLParams = []\<rparr>"] a b c
  show ?thesis by simp
qed

text \<open>
  C10 as the specification states it fails: in the wire-only mode, a transaction whose
  stored URL does not parse is answered with status 500 and the status text.
\<close>

theorem replyBinary_wire_only_bad_url:
  "writeWire AND writeRequestBody = 0 \<and> writeWire AND writeResponseBody = 0 \<and>
   replyBinary serve_whole fresh_writer \<lparr>URLParams = []\<rparr> bad_url_record writeWire
     = \<lparr>header = Map.empty, status_code = Some 500, written = ''Internal Server Error''\<rparr> \<and>
   replyBinary serve_whole fresh_writer \<lparr>URLParams = []\<rparr> bad_url_record writeWire
     \<noteq> fresh_writer"
proof -
  have a: "writeWire AND writeRequestBody = 0 \<and> writeWire AND writeResponseBody = 0"
    by (simp add: write_flags)
  have b: "writeWire \<noteq> writeNone" by (simp add: write_flags)
  have "replyBinary serve_whole fresh_writer \<lparr>URLParams = []\<rparr> bad_url_record writeWire
      = replyCode fresh_writer StatusInternalServerError"
    using a b by (simp add: replyBinary_def Let_def url_Parse_bad)
  with a show ?thesis by (simp add: replyCode_fresh) (simp add: fresh_writer_def)
qed

text \<open>
  C1, as the code has it. For every transaction whose stored URL parses and every body
  payload, with the wire flag and exactly one body flag, and \<open>{"X-Test": ["1","2"]}\<close> as
  the selected header collection, the byte stream is \<open>X-Test: 1\<close>, CRLF, \<open>X-Test: 2\<close>, CRLF,
  CRLF and then the selected body, the values in their order. In embed mode the stream is
  written as \<open>text/plain\<close>; otherwise it is what \<open>http.ServeContent\<close> is given to serve as
  an attachment.
\<close>

theorem replyBinary_wire_headers:
  assumes wire: "opts AND writeWire > 0"
    and one: "(opts AND writeRequestBody > 0) \<noteq> (opts AND writeResponseBody > 0)"
    and url: "url_Parse (URL (Meta record)) = Inr u"
    and hdr: "(if opts AND writeResponseBody > 0 then Header (Meta record)
               else RequestHeader (Meta record)) = [(''X-Test'', [''1'', ''2''])]"
  shows "replyBinary ServeContent w r record opts =
     (let stream = ''X-Test: 1'' @ [CHR 0x0D, CHR 0x0A] @ ''X-Test: 2'' @ [CHR 0x0D, CHR 0x0A]
                    @ [CHR 0x0D, CHR 0x0A]
                    @ (if opts AND writeResponseBody > 0 then Body record
                       else RequestBody record)
      in if opts AND writeEmbed > 0
         then Write (Header_Set w ''Content-Type'' ''text/plain; charset=utf-8'') stream
         else ServeContent
                (Header_Set w ''Content-Disposition''
                   (''attachment; filename='' @ [CHR 0x22] @ download_basename u @ [CHR 0x22]))
                r [] (DateEnd (Meta record)) stream)"
proof -
  from wire have nz: "opts \<noteq> writeNone" by (auto simp: writeNone_def)
  show ?thesis
  proof (cases "opts AND writeResponseBody > 0")
    case True
    with one have rq: "\<not> opts AND writeRequestBody > 0" by simp
    from True hdr have h: "Header (Meta record) = [(''X-Test'', [''1'', ''2''])]" by simp
    from True rq nz wire url h show ?thesis
      by (simp add: replyBinary_def Let_def wire_lines_def)
  next
    case False
    with one have rq: "opts AND writeRequestBody > 0" by simp
    from False hdr have h: "RequestHeader (Meta record) = [(''X-Test'', [''1'', ''2''])]"
      by simp
    from False rq nz wire url h show ?thesis
      by (simp add: replyBinary_def Let_def wire_lines_def)
  qed
qed

theorem replyBinary_wire_headers_witness:
  "(writeRequestBody OR writeWire OR writeEmbed) AND writeWire > 0 \<and>
   (writeRequestBody OR writeWire OR writeEmbed) AND writeRequestBody > 0 \<and>
   \<not> (writeRequestBody OR writeWire OR writeEmbed) AND writeResponseBody > 0 \<and>
   url_Parse (URL (Meta example_record))
     = Inr \<lparr>url_Scheme = ''http'', url_Opaque = [], url_Host = ''a.b'', url_Path = ''/c''\<rparr> \<and>
   RequestHeader (Meta example_record) = [(''X-Test'', [''1'', ''2''])] \<and>
   written (replyBinary serve_whole fresh_writer \<lparr>URLParams = []\<rparr> example_record
              (writeRequestBody OR writeWire OR writeEmbed))
     = ''X-Test: 1'' @ [CHR 0x0D, CHR 0x0A] @ ''X-Test: 2'' @ [CHR 0x0D, CHR 0x0A]
         @ [CHR 0x0D, CHR 0x0A] @ ''ping''"
proof -
  let ?opts = "writeRequestBody OR writeWire OR writeEmbed"
  have a: "?opts AND writeWire > 0" by (simp add: write_flags)
  have b: "?opts AND writeRequestBody > 0" by (simp add: write_flags)
  have c: "\<not> ?opts AND writeResponseBody > 0" by (simp add: write_flags)
  have e: "?opts AND writeEmbed > 0" by (simp add: write_flags)
  have one: "(?opts AND writeRequestBody > 0) \<noteq> (?opts AND writeResponseBody > 0)"
    using b c by simp
  have h: "RequestHeader (Meta example_record) = [(''X-Test'', [''1'', ''2''])]"
    by (simp add: example_record_def example_meta_def)
  have hdr: "(if ?opts AND writeResponseBody > 0 then Header (Meta example_record)
              else RequestHeader (Meta example_record)) = [(''X-Test'', [''1'', ''2''])]"
    using c h by simp
  have rb: "RequestBody example_record = ''ping''" by (simp add: example_record_def)
  from replyBinary_wire_headers [OF a one url_Parse_example hdr, of serve_whole fresh_writer
      "\<lparr>URLParams = []\<rparr>"]
  have "written (replyBinary serve_whole fresh_writer \<lparr>URLParams = []\<rparr> example_record ?opts)
      = ''X-Test: 1'' @ [CHR 0x0D, CHR 0x0A] @ ''X-Test: 2'' @ [CHR 0x0D, CHR 0x0A]
          @ [CHR 0x0D, CHR 0x0A] @ ''ping''"
    using c e rb
    by (simp add: Let_def Write_def WriteHeader_def Header_Set_def fresh_writer_def)
  with a b c h url_Parse_example show ?thesis by simp
qed

text \<open>
  C1 as the specification states it fails: with the wire flag, the request-body flag
  and the header collection of the claim, a transaction whose stored URL does not parse
  gets status 500 and the status text, not the header lines and the body.
\<close>

theorem replyBinary_wire_bad_url:
  "(writeRequestBody OR writeWire OR writeEmbed) AND writeWire > 0 \<and>
   (writeRequestBody OR writeWire OR writeEmbed) AND writeRequestBody > 0 \<and>
   (writeRequestBody OR writeWire OR writeEmbed) AND writeResponseBody = 0 \<and>
   RequestHeader (Meta bad_url_record) = [(''X-Test'', [''1'', ''2''])] \<and>
   RequestBody bad_url_record = ''ping'' \<and>
   replyBinary serve_whole fresh_writer \<lparr>URLParams = []\<rparr> bad_url_record
       (writeRequestBody OR writeWire OR writeEmbed)
     = \<lparr>header = Map.empty, status_code = Some 500, written = ''Internal Server Error''\<rparr>"
proof -
  let ?opts = "writeRequestBody OR writeWire OR writeEmbed"
  have a: "?opts AND writeWire > 0 \<and> ?opts AND writeRequestBody > 0 \<and>
           ?opts AND writeResponseBody = 0"
    by (simp add: write_flags)
  have b: "?opts \<noteq> writeNone" by (simp add: write_flags)
  have "replyBinary serve_whole fresh_writer \<lparr>URLParams = []\<rparr> bad_url_record ?opts
      = replyCode fresh_writer StatusInternalServerError"
    using a b by (simp add: replyBinary_def Let_def url_Parse_bad)
  with a show ?thesis
    by (simp add: replyCode_fresh)
       (simp add: bad_url_record_def example_record_def example_meta_def)
qed

section \<open>The transaction loader\<close>

lemma getCaptureRecord_cases:
  "(\<exists>record. getCaptureRecord st uuid = (Some record, None)) \<or>
   (\<exists>err. getCaptureRecord st uuid = (None, Some err))"
  by (auto simp: getCaptureRecord_def split: prod.splits option.splits sum.splits)

lemma Select_columns_bodies [simp]:
  "RequestBody (Select_columns row) = RequestBody row"
  "Body (Select_columns row) = Body row"
  by (simp_all add: Select_columns_def)

lemma res_One_example:
  "res_One example_store (Find [Cond col_uuid Equals ''u1'']) = Inr stored_record"
  by (simp add: res_One_def example_store_def Find_def matching_def window_def
        stored_record_def example_meta_def)

lemma stored_record_bodies:
  "RequestBody stored_record = hex_encode upper_hextable ''ping''"
  "Body stored_record = hex_encode upper_hextable ''hello''"
  by code_simp+

text \<open>
  C6. For every row the store hands to the loader whose two body columns hold the hex text
  of a request body and of a response body, byte sequences of any length, the empty one
  included, in the upper-case digits of the store's \<open>hex(...)\<close> or in the lower-case digits
  of Go's encoder: \<open>hex.DecodeString\<close> gives each byte sequence back with no error, and the
  loader returns no error and the selected columns of the row with exactly these two byte
  sequences as its request body and its response body.
\<close>

theorem loader_hex_round_trip:
  assumes "res_One st (Find [Cond col_uuid Equals uuid]) = Inr row"
    and "table = upper_hextable \<or> table = lower_hextable"
    and "RequestBody row = hex_encode table request_body"
    and "Body row = hex_encode table response_body"
  shows "hex_DecodeString (hex_encode table request_body) = (request_body, None) \<and>
         hex_DecodeString (hex_encode table response_body) = (response_body, None) \<and>
         getCaptureRecord st uuid =
           (Some ((Select_columns row)\<lparr>RequestBody := request_body, Body := response_body\<rparr>),
            None)"
proof -
  have d: "hex_DecodeString (hex_encode table bs) = (bs, None)" for bs
    using assms(2) hex_round_trip [of bs] by auto
  show ?thesis
    using assms(1,3,4) by (simp add: getCaptureRecord_def d)
qed

theorem loader_hex_round_trip_witness:
  "res_One example_store (Find [Cond col_uuid Equals ''u1'']) = Inr stored_record \<and>
   RequestBody stored_record = hex_encode upper_hextable ''ping'' \<and>
   Body stored_record = hex_encode upper_hextable ''hello'' \<and>
   getCaptureRecord example_store ''u1''
     = (Some (example_record\<lparr>Meta := example_meta\<lparr>ID := 0\<rparr>\<rparr>), None)"
proof -
  have "getCaptureRecord example_store ''u1'' =
          (Some ((Select_columns stored_record)\<lparr>RequestBody := ''ping'', Body := ''hello''\<rparr>),
           None)"
    using loader_hex_round_trip [OF res_One_example _ stored_record_bodies] by blast
  moreover have "(Select_columns stored_record)\<lparr>RequestBody := ''ping'', Body := ''hello''\<rparr>
                   = example_record\<lparr>Meta := example_meta\<lparr>ID := 0\<rparr>\<rparr>"
    by (simp add: Select_columns_def stored_record_def example_record_def)
  ultimately show ?thesis
    using res_One_example stored_record_bodies by simp
qed

lemma res_One_corrupt:
  "res_One corrupt_store (Find [Cond col_uuid Equals ''u1''])
     = Inr (stored_record\<lparr>Body := ''68656C6C6''\<rparr>)"
  by (simp add: res_One_def corrupt_store_def Find_def matching_def window_def
        stored_record_def example_meta_def)

lemma Decode_odd_length: "hex_DecodeString ''68656C6C6'' = (''hell'', Some ErrLength)"
  by code_simp

text \<open>
  C7. For every stored record the store hands to the loader, if the hex decoding of the
  request body or of the response body fails, the loader returns no record and an error:
  the record whose request body was already decoded is not returned.
\<close>

theorem getCaptureRecord_corrupt:
  assumes "res_One st (Find [Cond col_uuid Equals uuid]) = Inr record"
    and "snd (hex_DecodeString (RequestBody record)) \<noteq> None \<or>
         snd (hex_DecodeString (Body record)) \<noteq> None"
  shows "fst (getCaptureRecord st uuid) = None \<and> snd (getCaptureRecord st uuid) \<noteq> None"
  using assms by (auto simp: getCaptureRecord_def split: prod.splits option.splits)

theorem getCaptureRecord_corrupt_witness:
  "res_One corrupt_store (Find [Cond col_uuid Equals ''u1''])
     = Inr (stored_record\<lparr>Body := ''68656C6C6''\<rparr>) \<and>
   snd (hex_DecodeString (Body (stored_record\<lparr>Body := ''68656C6C6''\<rparr>))) = Some ErrLength \<and>
   fst (getCaptureRecord corrupt_store ''u1'') = None \<and>
   snd (getCaptureRecord corrupt_store ''u1'') \<noteq> None"
proof -
  have d: "snd (hex_DecodeString (Body (stored_record\<lparr>Body := ''68656C6C6''\<rparr>)))
             = Some ErrLength"
    by (simp add: Decode_odd_length)
  then have "snd (hex_DecodeString (RequestBody (stored_record\<lparr>Body := ''68656C6C6''\<rparr>)))
               \<noteq> None \<or>
             snd (hex_DecodeString (Body (stored_record\<lparr>Body := ''68656C6C6''\<rparr>))) \<noteq> None"
    by simp
  from getCaptureRecord_corrupt [OF res_One_corrupt this] res_One_corrupt d
  show ?thesis by blast
qed

section \<open>The search query\<close>

lemma Index_Some_iff: "Index s t \<noteq> None \<longleftrightarrow> (\<exists>a b. s = a @ t @ b)"
proof (induction s)
  case Nil
  show ?case by auto
next
  case (Cons c s)
  show ?case
  proof (cases "take (length t) (c # s) = t")
    case True
    then have "c # s = [] @ t @ drop (length t) (c # s)"
      by (metis append_Nil append_take_drop_id)
    with True show ?thesis by (auto simp del: append_Nil)
  next
    case False
    have "(\<exists>a b. c # s = a @ t @ b) \<longleftrightarrow> (\<exists>a b. s = a @ t @ b)"
    proof
      assume "\<exists>a b. c # s = a @ t @ b"
      then obtain a b where ab: "c # s = a @ t @ b" by blast
      show "\<exists>a b. s = a @ t @ b"
      proof (cases a)
        case Nil
        with ab have "take (length t) (c # s) = t" by simp
        with False show ?thesis by simp
      next
        case (Cons x a')
        with ab have "s = a' @ t @ b" by simp
        then show ?thesis by blast
      qed
    next
      assume "\<exists>a b. s = a @ t @ b"
      then obtain a b where "s = a @ t @ b" by blast
      then have "c # s = (c # a) @ t @ b" by simp
      then show "\<exists>a b. c # s = a @ t @ b" by blast
    qed
    with False Cons show ?thesis by simp
  qed
qed

lemma sql_like_percent [simp]: "sql_like ''%'' s"
  by (induction s) auto

lemma sql_like_literal:
  "CHR ''%'' \<notin> set t \<Longrightarrow> CHR ''_'' \<notin> set t \<Longrightarrow>
   sql_like (t @ ps) s \<longleftrightarrow> (\<exists>b. s = t @ b \<and> sql_like ps b)"
proof (induction t arbitrary: s)
  case Nil
  show ?case by simp
next
  case (Cons x t)
  then show ?case by (cases s) auto
qed

lemma sql_like_any_prefix:
  "sql_like (CHR ''%'' # ps) s \<longleftrightarrow> (\<exists>a b. s = a @ b \<and> sql_like ps b)"
proof (induction s)
  case Nil
  show ?case by (cases ps) auto
next
  case (Cons c s)
  show ?case
  proof
    assume "sql_like (CHR ''%'' # ps) (c # s)"
    then have "sql_like ps (c # s) \<or> sql_like (CHR ''%'' # ps) s" by simp
    then show "\<exists>a b. c # s = a @ b \<and> sql_like ps b"
    proof
      assume "sql_like ps (c # s)"
      then have "c # s = [] @ (c # s) \<and> sql_like ps (c # s)" by simp
      then show ?thesis by blast
    next
      assume "sql_like (CHR ''%'' # ps) s"
      with Cons obtain a b where "s = a @ b" "sql_like ps b" by blast
      then have "c # s = (c # a) @ b \<and> sql_like ps b" by simp
      then show ?thesis by blast
    qed
  next
    assume "\<exists>a b. c # s = a @ b \<and> sql_like ps b"
    then obtain a b where ab: "c # s = a @ b" "sql_like ps b" by blast
    show "sql_like (CHR ''%'' # ps) (c # s)"
    proof (cases a)
      case Nil
      with ab have "sql_like ps (c # s)" by simp
      then show ?thesis by simp
    next
      case (Cons x a')
      with ab have "s = a' @ b" by simp
      with ab(2) Cons.IH have "sql_like (CHR ''%'' # ps) s" by blast
      then show ?thesis by simp
    qed
  qed
qed

lemma sql_like_contains:
  assumes "CHR ''%'' \<notin> set t" and "CHR ''_'' \<notin> set t"
  shows "sql_like (''%'' @ t @ ''%'') s \<longleftrightarrow> contains s t"
proof -
  have "sql_like (''%'' @ t @ ''%'') s \<longleftrightarrow> (\<exists>a b. s = a @ b \<and> sql_like (t @ ''%'') b)"
    using sql_like_any_prefix [of "t @ ''%''" s] by simp
  also have "\<dots> \<longleftrightarrow> (\<exists>a b. s = a @ t @ b)"
    using sql_like_literal [OF assms, of "''%''"] by auto
  finally show ?thesis unfolding contains_def Index_Some_iff .
qed

lemma spec_runs_chars:
  "set (spec_runs b s) \<subseteq> {c. safe_char c \<and> \<not> is_space c} \<union> {CHR '' ''}"
  by (induction s arbitrary: b) auto

lemma Split_chars: "t \<in> set (Split s sep) \<Longrightarrow> set t \<subseteq> set s"
proof (induction s arbitrary: t)
  case Nil
  then show ?case by simp
next
  case (Cons c s)
  show ?case
  proof (cases "c = sep")
    case True
    with Cons show ?thesis by auto
  next
    case False
    show ?thesis
    proof (cases "Split s sep")
      case Nil
      with False Cons.prems show ?thesis by simp
    next
      case (Cons a list)
      with False Cons.prems have "t = c # a \<or> t \<in> set list" by simp
      moreover have "set a \<subseteq> set s" using Cons.IH [of a] Cons by simp
      moreover have "t \<in> set list \<Longrightarrow> set t \<subseteq> set s" using Cons.IH [of t] Cons by simp
      ultimately show ?thesis by auto
    qed
  qed
qed

lemma sanitized_term_literal:
  assumes "t \<in> set (Split (sanitize_query raw) (CHR '' ''))"
  shows "CHR ''%'' \<notin> set t \<and> CHR ''_'' \<notin> set t"
proof -
  have "sanitize_query raw = spec_runs False raw"
    by (simp add: sanitize_query_def sanitize_runs)
  with Split_chars [OF assms] spec_runs_chars [of False raw]
  have "set t \<subseteq> {c. safe_char c \<and> \<not> is_space c} \<union> {CHR '' ''}" by auto
  moreover have "\<not> safe_char (CHR ''%'')" and "\<not> safe_char (CHR ''_'')"
    by (simp_all add: char_classes)
  ultimately show ?thesis by auto
qed

lemma holds_term_conds:
  assumes "CHR ''%'' \<notin> set t" and "CHR ''_'' \<notin> set t"
  shows "holds m (term_conds t) = term_matches m t"
  using sql_like_contains [OF assms]
  by (simp add: term_conds_def term_matches_def del: append.simps)

lemma foldl_union_Or:
  "foldl (\<lambda>conds term. union_Or conds (term_conds term)) (Or cs) ts
     = Or (cs @ map term_conds ts)"
  by (induction ts arbitrary: cs) auto

lemma holds_query_conds:
  "holds m (query_conds q) = list_ex (\<lambda>t. holds m (term_conds t)) (Split q (CHR '' ''))"
  by (simp add: query_conds_def foldl_union_Or list_ex_iff)

text \<open>
  The condition of lines 297-316, for a sanitized query string that is not empty: a stored
  record satisfies it if and only if some piece of \<open>strings.Split(q, " ")\<close> matches the
  record, that is host, origin, path or content type contains the piece as it stands, or
  method, scheme or status equals it. The pieces are joined by OR.
\<close>

lemma query_matches_some_piece:
  assumes "q = sanitize_query raw" and "q \<noteq> []"
  shows "holds m (query_conds q) = spec_matches m (Split q (CHR '' '')) \<and>
         matching st (listing_query q page)
           = filter (\<lambda>row. spec_matches (Meta row) (Split q (CHR '' ''))) (rows st)"
proof -
  have eq: "holds m' (query_conds q) = spec_matches m' (Split q (CHR '' ''))" for m'
    using sanitized_term_literal [of _ raw] assms(1)
    by (auto simp: holds_query_conds spec_matches_def list_ex_iff holds_term_conds)
  from assms(2) have "conds (listing_query q page) = [query_conds q]"
    by (simp add: listing_query_def Let_def)
  then have "matching st (listing_query q page)
      = filter (\<lambda>row. holds (Meta row) (query_conds q)) (rows st)"
    by (simp add: matching_def)
  with eq show ?thesis by simp
qed

text \<open>The pieces of \<open>strings.Split\<close> are the words of the query and, where the query starts
  or ends with a space, an empty piece at that end: the sanitizer leaves single spaces
  only, and leaves them at both ends.\<close>

lemma Split_not_Nil: "Split s sep \<noteq> []"
  by (induction s) (auto split: list.splits)

lemma spec_terms_from_Split:
  assumes "\<forall>c \<in> set q. is_space c \<longrightarrow> c = CHR '' ''"
  shows "spec_terms_from w q
           = filter (\<lambda>t. t \<noteq> [])
               ((w @ hd (Split q (CHR '' ''))) # tl (Split q (CHR '' '')))"
  using assms
proof (induction q arbitrary: w)
  case Nil
  show ?case by simp
next
  case (Cons c cs)
  obtain t ts where S: "Split cs (CHR '' '') = t # ts"
    using Split_not_Nil [of cs "CHR '' ''"] by (cases "Split cs (CHR '' '')") auto
  have IH: "spec_terms_from w' cs = filter (\<lambda>t. t \<noteq> []) ((w' @ t) # ts)" for w'
    using Cons.IH [of w'] Cons.prems S by simp
  show ?case
  proof (cases "c = CHR '' ''")
    case True
    then have "is_space c" by (simp add: is_space_def)
    with True show ?thesis using IH [of "[]"] by (simp add: S)
  next
    case False
    with Cons.prems have "\<not> is_space c" by auto
    with False show ?thesis using IH [of "w @ [c]"] by (simp add: S)
  qed
qed

lemma sanitized_spaces:
  "\<forall>c \<in> set (sanitize_query raw). is_space c \<longrightarrow> c = CHR '' ''"
proof -
  have "sanitize_query raw = spec_runs False raw"
    by (simp add: sanitize_query_def sanitize_runs)
  with spec_runs_chars [of False raw] show ?thesis by auto
qed

lemma spec_terms_sanitized:
  "spec_terms (sanitize_query raw)
     = filter (\<lambda>t. t \<noteq> []) (Split (sanitize_query raw) (CHR '' ''))"
  using spec_terms_from_Split [OF sanitized_spaces, where w = "[]" and raw1 = raw]
        Split_not_Nil [of "sanitize_query raw" "CHR '' ''"]
  by (simp add: spec_terms_def)

lemma contains_empty: "contains s []"
  unfolding contains_def Index_Some_iff by (metis append_Nil)

lemma term_matches_empty: "term_matches m []"
  by (simp add: term_matches_def contains_empty)

text \<open>Where no piece is empty, the condition is the one of the specification: some term
  of the query matches the record.\<close>

lemma query_matches_any_word:
  assumes "q = sanitize_query raw" and "q \<noteq> []" and "[] \<notin> set (Split q (CHR '' ''))"
  shows "holds m (query_conds q) = spec_matches m (spec_terms q)"
proof -
  from assms(3) have "filter (\<lambda>t. t \<noteq> []) (Split q (CHR '' '')) = Split q (CHR '' '')"
    by (simp add: filter_id_conv) metis
  with assms(1) have "spec_terms q = Split q (CHR '' '')"
    using spec_terms_sanitized [of raw] by simp
  with query_matches_some_piece [OF assms(1,2), of m] show ?thesis by simp
qed

text \<open>Where a piece is empty, its pattern is \<open>%%\<close> and every record satisfies the
  condition, whatever the terms of the query are.\<close>

lemma empty_piece_matches_all:
  assumes "q = sanitize_query raw" and "q \<noteq> []" and "[] \<in> set (Split q (CHR '' ''))"
  shows "holds m (query_conds q)"
    and "matching st (listing_query q page) = rows st"
proof -
  have all: "spec_matches m' (Split q (CHR '' ''))" for m'
    using assms(3) term_matches_empty [of m'] by (auto simp: spec_matches_def list_ex_iff)
  with query_matches_some_piece [OF assms(1,2), of m] show "holds m (query_conds q)"
    by simp
  from all query_matches_some_piece [OF assms(1,2), of _ st page]
  show "matching st (listing_query q page) = rows st" by simp
qed

text \<open>The handler where the store answers both calls.\<close>

lemma capturesHandler_ok:
  assumes "failure st OpAll = None" and "failure st OpCount = None"
  shows "capturesHandler Marshal st w r =
     (let q = sanitize_query (URLParam r ''q'');
          page = requested_page (URLParam r ''page'');
          found = matching st (listing_query q page)
      in replyJSON Marshal w
           (JSON_pull \<lparr>Requests = map Meta (window (listing_query q page) found),
                       Pages = page_count (of_nat (length found)), Page = page\<rparr>))"
  using assms by (simp add: capturesHandler_def res_All_def res_Count_def Let_def)

lemma two_row_failure: "failure two_row_store op = None"
  by (simp add: two_row_store_def)

lemma page_count_two: "page_count 2 = 1"
  by (simp add: page_count_def float64_of_nat_def float64_div_def float64_round_def Ceil_def
        uint_of_float64_def pageSize_def bit_length.simps round_half_even_def Let_def)

lemma trailing_blank_request:
  "sanitize_query (URLParam \<lparr>URLParams = [(''q'', ''GET!'')]\<rparr> ''q'') = ''GET ''"
  "requested_page (URLParam \<lparr>URLParams = [(''q'', ''GET!'')]\<rparr> ''page'') = 1"
  by code_simp+

lemma trailing_blank_found:
  "matching two_row_store (listing_query ''GET '' 1) = [post_row, stored_record]"
  by code_simp

lemma trailing_blank_window:
  "map Meta (window (listing_query ''GET '' 1) [post_row, stored_record])
     = [example_meta, Meta post_row]"
  by code_simp

text \<open>
  C3. The claim fails where the sanitized query starts or ends with a space. The query
  \<open>GET!\<close> is sanitized to \<open>GET\<close> and a space: one term, \<open>GET\<close>. \<open>strings.Split\<close> cuts it into
  \<open>GET\<close> and an empty piece; the empty piece gives the pattern \<open>%%\<close>, which every host
  matches. Of the two stored transactions, the one with method \<open>POST\<close>, status 404 and
  host \<open>x.y\<close> matches no term of the query, and the built query matches it: the handler
  lists both transactions.
\<close>

theorem trailing_blank_matches_all:
  "sanitize_query ''GET!'' = ''GET '' \<and>
   spec_terms ''GET '' = [''GET''] \<and>
   Split ''GET '' (CHR '' '') = [''GET'', []] \<and>
   \<not> spec_matches (Meta post_row) (spec_terms ''GET '') \<and>
   holds (Meta post_row) (query_conds ''GET '') \<and>
   matching two_row_store (listing_query ''GET '' 1) = [post_row, stored_record] \<and>
   capturesHandler (marshal_as ''{}'') two_row_store fresh_writer
       \<lparr>URLParams = [(''q'', ''GET!'')]\<rparr>
     = replyJSON (marshal_as ''{}'') fresh_writer
         (JSON_pull \<lparr>Requests = [example_meta, Meta post_row], Pages = 1, Page = 1\<rparr>)"
proof -
  have a: "sanitize_query ''GET!'' = ''GET ''" by code_simp
  have b: "spec_terms ''GET '' = [''GET'']" by code_simp
  have c: "Split ''GET '' (CHR '' '') = [''GET'', []]" by code_simp
  have d: "\<not> spec_matches (Meta post_row) (spec_terms ''GET '')" by code_simp
  have e: "holds (Meta post_row) (query_conds ''GET '')" by code_simp
  have "capturesHandler (marshal_as ''{}'') two_row_store fresh_writer
       \<lparr>URLParams = [(''q'', ''GET!'')]\<rparr>
     = replyJSON (marshal_as ''{}'') fresh_writer
         (JSON_pull \<lparr>Requests = [example_meta, Meta post_row], Pages = 1, Page = 1\<rparr>)"
    unfolding capturesHandler_ok [OF two_row_failure two_row_failure] Let_def
      trailing_blank_request trailing_blank_found trailing_blank_window
    by (simp add: page_count_two)
  with a b c d e trailing_blank_found show ?thesis by blast
qed

section \<open>Store failures at the endpoints\<close>

lemma getCaptureRecord_One_fails:
  "failure st OpOne = Some e \<Longrightarrow> getCaptureRecord st uuid = (None, Some e)"
  by (simp add: getCaptureRecord_def res_One_def)

lemma recordHandler_error:
  "snd (getCaptureRecord st (URLParam r ''uuid'')) \<noteq> None \<Longrightarrow>
   recordHandler ServeContent st w r opts = replyCode w StatusInternalServerError"
  by (auto simp: recordHandler_def split: prod.splits option.splits)

lemma recordMetaHandler_error:
  "snd (getCaptureRecord st (URLParam r ''uuid'')) \<noteq> None \<Longrightarrow>
   recordMetaHandler Marshal st w r = replyCode w StatusInternalServerError"
  by (auto simp: recordMetaHandler_def split: prod.splits option.splits)

lemma capturesHandler_All_fails:
  "failure st OpAll = Some e \<Longrightarrow>
   capturesHandler Marshal st w r = replyCode w StatusInternalServerError"
  by (simp add: capturesHandler_def res_All_def Let_def)

lemma capturesHandler_Count_fails:
  "failure st OpAll = None \<Longrightarrow> failure st OpCount = Some e \<Longrightarrow>
   capturesHandler Marshal st w r =
     replyJSON Marshal w
       (JSON_pull
          \<lparr>Requests =
             map Meta
               (window
                  (listing_query (sanitize_query (URLParam r ''q''))
                     (requested_page (URLParam r ''page'')))
                  (matching st
                     (listing_query (sanitize_query (URLParam r ''q''))
                        (requested_page (URLParam r ''page''))))),
           Pages = 0, Page = requested_page (URLParam r ''page'')\<rparr>)"
  by (simp add: capturesHandler_def res_All_def res_Count_def Let_def)

lemma replyJSON_fresh:
  "replyJSON (marshal_as buf) fresh_writer data =
     \<lparr>header = [''Access-Control-Allow-Origin'' \<mapsto> [''*''],
                ''Content-Type'' \<mapsto> [''application/json'']],
      status_code = Some 200, written = buf\<rparr>"
  by (simp add: replyJSON_def marshal_as_def fresh_writer_def Header_Set_def WriteHeader_def
        Write_def StatusOK_def)

lemma no_params_page: "requested_page (URLParam \<lparr>URLParams = []\<rparr> ''page'') = 1"
  by code_simp

lemma no_params_listing:
  "map Meta
     (window (listing_query (sanitize_query (URLParam \<lparr>URLParams = []\<rparr> ''q'')) 1)
        (matching count_failing_store
           (listing_query (sanitize_query (URLParam \<lparr>URLParams = []\<rparr> ''q'')) 1)))
     = [example_meta]"
  by code_simp

lemma count_failing_store_failure:
  "failure count_failing_store OpAll = None \<and>
   failure count_failing_store OpCount = Some (StoreFailure ''count'')"
  by (simp add: count_failing_store_def)

lemma failing_store_failure: "failure failing_store op = Some (StoreFailure ''down'')"
  by (simp add: failing_store_def)

text \<open>
  C9, as the code has it. At every endpoint a failure of the fetch is answered with
  \<open>replyCode(w, 500)\<close>: the listing fetch in the listing, and in the metadata endpoint
  and the six content endpoints the load of the transaction, which fails when the store's
  single-row fetch fails. A failure of the total count alone is not surfaced: the listing
  is sent as JSON as usual, with \<open>pages = 0\<close>.
\<close>

theorem store_failures:
  "(failure st OpAll = Some e \<longrightarrow>
      capturesHandler Marshal st w r = replyCode w StatusInternalServerError) \<and>
   (failure st OpOne = Some e \<longrightarrow>
      snd (getCaptureRecord st (URLParam r ''uuid'')) = Some e) \<and>
   (snd (getCaptureRecord st (URLParam r ''uuid'')) \<noteq> None \<longrightarrow>
      recordMetaHandler Marshal st w r = replyCode w StatusInternalServerError \<and>
      recordHandler ServeContent st w r opts = replyCode w StatusInternalServerError \<and>
      requestContentHandler ServeContent st w r = replyCode w StatusInternalServerError \<and>
      requestWireHandler ServeContent st w r = replyCode w StatusInternalServerError \<and>
      requestEmbedHandler ServeContent st w r = replyCode w StatusInternalServerError \<and>
      responseContentHandler ServeContent st w r = replyCode w StatusInternalServerError \<and>
      responseWireHandler ServeContent st w r = replyCode w StatusInternalServerError \<and>
      responseEmbedHandler ServeContent st w r = replyCode w StatusInternalServerError) \<and>
   (failure st OpAll = None \<and> failure st OpCount = Some e \<longrightarrow>
      capturesHandler Marshal st w r =
        replyJSON Marshal w
          (JSON_pull
             \<lparr>Requests =
                map Meta
                  (window
                     (listing_query (sanitize_query (URLParam r ''q''))
                        (requested_page (URLParam r ''page'')))
                     (matching st
                        (listing_query (sanitize_query (URLParam r ''q''))
                           (requested_page (URLParam r ''page''))))),
              Pages = 0, Page = requested_page (URLParam r ''page'')\<rparr>))"
  by (simp add: capturesHandler_All_fails capturesHandler_Count_fails getCaptureRecord_One_fails
        recordHandler_error recordMetaHandler_error requestContentHandler_def
        requestWireHandler_def requestEmbedHandler_def responseContentHandler_def
        responseWireHandler_def responseEmbedHandler_def)

theorem store_failures_witness:
  "failure failing_store OpAll = Some (StoreFailure ''down'') \<and>
   capturesHandler (marshal_as ''{}'') failing_store fresh_writer \<lparr>URLParams = []\<rparr>
     = \<lparr>header = Map.empty, status_code = Some 500, written = ''Internal Server Error''\<rparr> \<and>
   failure failing_store OpOne = Some (StoreFailure ''down'') \<and>
   snd (getCaptureRecord failing_store (URLParam \<lparr>URLParams = []\<rparr> ''uuid''))
     = Some (StoreFailure ''down'') \<and>
   requestWireHandler serve_whole failing_store fresh_writer \<lparr>URLParams = []\<rparr>
     = \<lparr>header = Map.empty, status_code = Some 500, written = ''Internal Server Error''\<rparr> \<and>
   failure count_failing_store OpAll = None \<and>
   failure count_failing_store OpCount = Some (StoreFailure ''count'') \<and>
   capturesHandler (marshal_as ''{}'') count_failing_store fresh_writer \<lparr>URLParams = []\<rparr>
     = replyJSON (marshal_as ''{}'') fresh_writer
         (JSON_pull \<lparr>Requests = [example_meta], Pages = 0, Page = 1\<rparr>)"
proof -
  note f = store_failures [of failing_store "StoreFailure ''down''" "marshal_as ''{}''"
      fresh_writer "\<lparr>URLParams = []\<rparr>" serve_whole writeNone]
  note g = store_failures [of count_failing_store "StoreFailure ''count''" "marshal_as ''{}''"
      fresh_writer "\<lparr>URLParams = []\<rparr>" serve_whole writeNone]
  have a: "capturesHandler (marshal_as ''{}'') failing_store fresh_writer \<lparr>URLParams = []\<rparr>
      = \<lparr>header = Map.empty, status_code = Some 500, written = ''Internal Server Error''\<rparr>"
    using f failing_store_failure [of OpAll] by (simp only: replyCode_fresh)
  have b: "snd (getCaptureRecord failing_store (URLParam \<lparr>URLParams = []\<rparr> ''uuid''))
      = Some (StoreFailure ''down'')"
    using f failing_store_failure [of OpOne] by blast
  then have "snd (getCaptureRecord failing_store (URLParam \<lparr>URLParams = []\<rparr> ''uuid''))
      \<noteq> None"
    by simp
  with f have "requestWireHandler serve_whole failing_store fresh_writer \<lparr>URLParams = []\<rparr>
      = replyCode fresh_writer StatusInternalServerError"
    by blast
  then have c: "requestWireHandler serve_whole failing_store fresh_writer \<lparr>URLParams = []\<rparr>
      = \<lparr>header = Map.empty, status_code = Some 500, written = ''Internal Server Error''\<rparr>"
    by (simp only: replyCode_fresh)
  from g count_failing_store_failure
  have "capturesHandler (marshal_as ''{}'') count_failing_store fresh_writer \<lparr>URLParams = []\<rparr>
      = replyJSON (marshal_as ''{}'') fresh_writer
         (JSON_pull
            \<lparr>Requests =
               map Meta
                 (window
                    (listing_query (sanitize_query (URLParam \<lparr>URLParams = []\<rparr> ''q''))
                       (requested_page (URLParam \<lparr>URLParams = []\<rparr> ''page'')))
                    (matching count_failing_store
                       (listing_query (sanitize_query (URLParam \<lparr>URLParams = []\<rparr> ''q''))
                          (requested_page (URLParam \<lparr>URLParams = []\<rparr> ''page''))))),
             Pages = 0, Page = requested_page (URLParam \<lparr>URLParams = []\<rparr> ''page'')\<rparr>)"
    by blast
  then have d: "capturesHandler (marshal_as ''{}'') count_failing_store fresh_writer
        \<lparr>URLParams = []\<rparr>
      = replyJSON (marshal_as ''{}'') fresh_writer
         (JSON_pull \<lparr>Requests = [example_meta], Pages = 0, Page = 1\<rparr>)"
    by (simp only: no_params_listing no_params_page)
  from a b c d failing_store_failure [of OpAll] failing_store_failure [of OpOne]
    count_failing_store_failure
  show ?thesis by blast
qed

text \<open>
  C9 as the specification states it fails: when the listing fetch succeeds and the count
  fails, and the response encodes, the client gets status 200 and the encoded listing.
\<close>

theorem count_failure_answered_200:
  "failure count_failing_store OpCount = Some (StoreFailure ''count'') \<and>
   capturesHandler (marshal_as ''{}'') count_failing_store fresh_writer \<lparr>URLParams = []\<rparr>
     = \<lparr>header = [''Access-Control-Allow-Origin'' \<mapsto> [''*''],
                ''Content-Type'' \<mapsto> [''application/json'']],
        status_code = Some 200, written = ''{}''\<rparr>"
proof -
  have "capturesHandler (marshal_as ''{}'') count_failing_store fresh_writer \<lparr>URLParams = []\<rparr>
      = replyJSON (marshal_as ''{}'') fresh_writer
         (JSON_pull \<lparr>Requests = [example_meta], Pages = 0, Page = 1\<rparr>)"
    using capturesHandler_Count_fails [of count_failing_store "StoreFailure ''count''"
        "marshal_as ''{}''" fresh_writer "\<lparr>URLParams = []\<rparr>"] count_failing_store_failure
    by (simp only: no_params_listing no_params_page)
  with count_failing_store_failure show ?thesis by (simp only: replyJSON_fresh)
qed

section \<open>The listing\<close>

lemma bit_length_bounds:
  "0 < n \<Longrightarrow> 2 ^ (bit_length n - 1) \<le> n \<and> n < 2 ^ bit_length n"
proof (induction n rule: bit_length.induct)
  case (1 n)
  show ?case
  proof (cases "n div 2 = 0")
    case True
    with 1(2) have "n = 1" by auto
    then show ?thesis by (simp add: bit_length.simps)
  next
    case False
    then have pos: "0 < n div 2" by simp
    from 1(2) have nz: "n \<noteq> 0" by simp
    from 1(1) [OF nz pos] have ih: "2 ^ (bit_length (n div 2) - 1) \<le> n div 2"
      "n div 2 < 2 ^ bit_length (n div 2)" by auto
    have bl: "bit_length n = Suc (bit_length (n div 2))" using nz by (simp add: bit_length.simps [of n])
    have blpos: "0 < bit_length (n div 2)" using pos by (simp add: bit_length.simps [of "n div 2"])
    then obtain k where k: "bit_length (n div 2) = Suc k" by (cases "bit_length (n div 2)") auto
    from ih k have "2 * 2 ^ k \<le> 2 * (n div 2)" by simp
    also have "\<dots> \<le> n" by simp
    finally have lo: "2 ^ (bit_length n - 1) \<le> n" using bl k by simp
    from ih(2) have "n div 2 + 1 \<le> 2 ^ bit_length (n div 2)" by simp
    then have "2 * (n div 2) + 2 \<le> 2 * 2 ^ bit_length (n div 2)" by simp
    moreover have "n \<le> 2 * (n div 2) + 1" by arith
    ultimately have hi: "n < 2 ^ bit_length n" using bl by simp
    from lo hi show ?thesis by simp
  qed
qed

lemma round_half_even_error:
  assumes "0 < b"
  shows "2 * (round_half_even a b * b) \<le> 2 * a + b \<and>
         2 * a \<le> 2 * (round_half_even a b * b) + b"
proof -
  define Q where "Q = (a div b) * b"
  have a: "a = Q + a mod b" by (simp add: Q_def)
  have r: "a mod b < b" using assms by simp
  show ?thesis
  proof (cases "2 * (a mod b) < b \<or> (2 * (a mod b) = b \<and> even (a div b))")
    case True
    then have "round_half_even a b * b = Q" by (simp add: round_half_even_def Let_def Q_def)
    with a True show ?thesis by arith
  next
    case False
    then have "round_half_even a b = a div b + 1"
      by (auto simp: round_half_even_def Let_def)
    then have "round_half_even a b * b = Q + b"
      by (simp add: Q_def algebra_simps)
    moreover from False have "b \<le> 2 * (a mod b)" by auto
    ultimately show ?thesis using a r by arith
  qed
qed

lemma round_half_even_exact: "0 < b \<Longrightarrow> round_half_even (k * b) b = k"
  by (simp add: round_half_even_def Let_def)


lemma float64_round_spec:
  assumes "0 < a" and "0 < b"
  obtains m e where "float64_round a b = (m, e)"
    and "2 ^ 52 * (b * 2 ^ nat e) \<le> a * 2 ^ nat (- e)"
    and "a * 2 ^ nat (- e) < 2 ^ 53 * (b * 2 ^ nat e)"
    and "m = round_half_even (a * 2 ^ nat (- e)) (b * 2 ^ nat e)"
proof -
  define la where "la = bit_length a"
  define lb where "lb = bit_length b"
  define e0 where "e0 = int la - int lb - 53"
  from bit_length_bounds [OF assms(1)] have a: "2 ^ (la - 1) \<le> a" "a < 2 ^ la"
    by (simp_all add: la_def)
  from bit_length_bounds [OF assms(2)] have b: "2 ^ (lb - 1) \<le> b" "b < 2 ^ lb"
    by (simp_all add: lb_def)
  have lapos: "0 < la" using a(2) assms(1) by (cases la) auto
  have lbpos: "0 < lb" using b(2) assms(2) by (cases lb) auto
  from lapos obtain la' where la': "la = Suc la'" by (cases la) auto
  from lbpos obtain lb' where lb': "lb = Suc lb'" by (cases lb) auto
  from a la' have a': "2 ^ la' \<le> a" "a < 2 ^ Suc la'" by simp_all
  from b lb' have b': "2 ^ lb' \<le> b" "b < 2 ^ Suc lb'" by simp_all
  have n0: "2 ^ 52 * (b * 2 ^ nat e0) < a * 2 ^ nat (- e0) \<and>
            a * 2 ^ nat (- e0) < 2 ^ 54 * (b * 2 ^ nat e0)"
  proof (cases "0 \<le> e0")
    case True
    then obtain n where n: "e0 = int n" using nonneg_int_cases by blast
    then have la: "la' = 52 + (Suc lb' + n)" "Suc la' = 54 + (lb' + n)"
      using e0_def la' lb' by linarith+
    have "2 ^ 52 * (b * 2 ^ n) < 2 ^ 52 * (2 ^ Suc lb' * 2 ^ n)"
      using b'(2) by (simp only: mult_less_cancel1 mult_less_cancel2) simp
    also have "\<dots> = 2 ^ la'" unfolding la(1) by (simp only: power_add)
    also have "\<dots> \<le> a" by (rule a'(1))
    finally have lo: "2 ^ 52 * (b * 2 ^ n) < a" .
    have "a < 2 ^ Suc la'" by (rule a'(2))
    also have "\<dots> = 2 ^ 54 * (2 ^ lb' * 2 ^ n)" unfolding la(2) by (simp only: power_add)
    also have "\<dots> \<le> 2 ^ 54 * (b * 2 ^ n)"
      using b'(1) by (simp only: mult_le_cancel1 mult_le_cancel2) simp
    finally have hi: "a < 2 ^ 54 * (b * 2 ^ n)" .
    from n have "nat (- e0) = 0" "nat e0 = n" by simp_all
    with lo hi show ?thesis by (simp only: power_0 mult_1_right simp_thms)
  next
    case False
    then obtain n where n: "- e0 = int n"
      by (metis neg_0_less_iff_less not_le zero_less_imp_eq_int)
    then have la: "Suc lb' + 52 = la' + n" "la' + n + 1 = 54 + lb'"
      using e0_def la' lb' by linarith+
    have "2 ^ 52 * b < 2 ^ 52 * 2 ^ Suc lb'"
      using b'(2) by (simp only: mult_less_cancel1) simp
    also have "\<dots> = 2 ^ (Suc lb' + 52)" by (simp only: power_add mult.commute)
    also have "\<dots> = 2 ^ la' * 2 ^ n" unfolding la(1) by (simp only: power_add)
    also have "\<dots> \<le> a * 2 ^ n" using a'(1) by (simp only: mult_le_cancel2) simp
    finally have lo: "2 ^ 52 * b < a * 2 ^ n" .
    have "a * 2 ^ n < 2 ^ Suc la' * 2 ^ n" using a'(2) by (simp only: mult_less_cancel2) simp
    also have "\<dots> = 2 ^ (la' + n + 1)" by (simp only: power_add power_Suc power_one_right mult_ac)
    also have "\<dots> = 2 ^ 54 * 2 ^ lb'" unfolding la(2) by (simp only: power_add)
    also have "\<dots> \<le> 2 ^ 54 * b" using b'(1) by (simp only: mult_le_cancel1) simp
    finally have hi: "a * 2 ^ n < 2 ^ 54 * b" .
    from n False have "nat (- e0) = n" "nat e0 = 0" by simp_all
    with lo hi show ?thesis by (simp only: power_0 mult_1_right simp_thms)
  qed
  show ?thesis
  proof (cases "a * 2 ^ nat (- e0) < 2 ^ 53 * (b * 2 ^ nat e0)")
    case True
    then have fr: "float64_round a b
        = (round_half_even (a * 2 ^ nat (- e0)) (b * 2 ^ nat e0), e0)"
      using assms(1) by (simp add: float64_round_def Let_def e0_def la_def lb_def)
    from n0 have lo: "2 ^ 52 * (b * 2 ^ nat e0) \<le> a * 2 ^ nat (- e0)"
      by (rule conjunct1 [THEN less_imp_le])
    show ?thesis by (rule that [OF fr lo True refl])
  next
    case False
    then have fr: "float64_round a b
        = (round_half_even (a * 2 ^ nat (- (e0 + 1))) (b * 2 ^ nat (e0 + 1)), e0 + 1)"
      using assms(1) by (simp add: float64_round_def Let_def e0_def la_def lb_def)
    have "2 ^ 52 * (b * 2 ^ nat (e0 + 1)) \<le> a * 2 ^ nat (- (e0 + 1)) \<and>
          a * 2 ^ nat (- (e0 + 1)) < 2 ^ 53 * (b * 2 ^ nat (e0 + 1))"
    proof (cases "0 \<le> e0")
      case True
      then have "nat (e0 + 1) = Suc (nat e0)" "nat (- (e0 + 1)) = 0" "nat (- e0) = 0" by simp_all
      with False n0 show ?thesis by simp
    next
      case neg: False
      then have "nat (e0 + 1) = 0" "nat e0 = 0" "nat (- e0) = Suc (nat (- (e0 + 1)))" by simp_all
      with False n0 show ?thesis by simp
    qed
    then show ?thesis using that [OF fr _ _ refl] by blast
  qed
qed


lemma round_half_even_one [simp]: "round_half_even a (Suc 0) = a"
  by (simp add: round_half_even_def)

lemma float64_of_nat_small:
  assumes "0 < c" and "c \<le> 2 ^ 53"
  obtains n where "float64_of_nat c = (c * 2 ^ n, - int n)"
  | "c = 2 ^ 53" and "float64_of_nat c = (2 ^ 52, 1)"
proof -
  have one: "(0::nat) < 1" by simp
  from float64_round_spec [OF assms(1) one] obtain m e where
    fr: "float64_round c 1 = (m, e)"
    and lo: "2 ^ 52 * (1 * 2 ^ nat e) \<le> c * 2 ^ nat (- e)"
    and hi: "c * 2 ^ nat (- e) < 2 ^ 53 * (1 * 2 ^ nat e)"
    and m: "m = round_half_even (c * 2 ^ nat (- e)) (1 * 2 ^ nat e)"
    by blast
  show ?thesis
  proof (cases "e \<le> 0")
    case True
    then have "nat e = 0" "e = - int (nat (- e))" by simp_all
    with m fr have "float64_of_nat c = (c * 2 ^ nat (- e), - int (nat (- e)))"
      by (simp add: float64_of_nat_def)
    then show ?thesis by (rule that(1))
  next
    case False
    then obtain k where k: "nat e = Suc k" "nat (- e) = 0" by (cases "nat e") auto
    with lo assms(2) have "(2::nat) ^ 52 * (2 * 2 ^ k) \<le> 2 ^ 53" by simp
    then have "(2::nat) ^ 53 * 2 ^ k \<le> 2 ^ 53 * 1" by simp
    then have "(2::nat) ^ k \<le> 1" by (simp only: mult_le_cancel1) simp
    then have k0: "k = 0"
    proof (cases k)
      case 0
      then show ?thesis .
    next
      case (Suc k')
      have p: "(1::nat) \<le> 2 ^ k'" by simp
      from \<open>2 ^ k \<le> 1\<close> Suc have "2 * 2 ^ k' \<le> (1::nat)" by simp
      with p show ?thesis by linarith
    qed
    with k lo assms(2) have c: "c = 2 ^ 53" by simp
    from k k0 False have e: "e = 1" by linarith
    have "round_half_even (2 ^ 53) 2 = (2 ^ 52 :: nat)"
      using round_half_even_exact [of 2 "2 ^ 52"] by simp
    with m c k k0 have "m = 2 ^ 52" by simp
    with fr e have "float64_of_nat c = (2 ^ 52, 1)" by (simp add: float64_of_nat_def)
    with c show ?thesis by (rule that(2))
  qed
qed

lemma bit_length_numerals: "bit_length 50 = 6" "bit_length 1 = 1" "bit_length (Suc 0) = 1"
  by (simp_all add: bit_length.simps)

lemma float64_of_pageSize: "float64_of_nat pageSize = (50 * 2 ^ 47, - 47)"
  by (simp add: float64_of_nat_def float64_round_def pageSize_def Let_def
        bit_length_numerals round_half_even_def)

lemma float64_div_pageSize:
  assumes "0 < c" and "c \<le> 2 ^ 53"
  obtains j where
    "float64_div (float64_of_nat c) (float64_of_nat pageSize)
       = float64_round (c * 2 ^ j) (50 * 2 ^ j)"
proof (rule float64_of_nat_small [OF assms])
  fix n
  assume f: "float64_of_nat c = (c * 2 ^ n, - int n)"
  have unf: "float64_div (float64_of_nat c) (float64_of_nat pageSize)
      = float64_round (c * 2 ^ n * 2 ^ nat (- int n + 47))
          (50 * 2 ^ 47 * 2 ^ nat (- 47 + int n))"
    by (simp add: float64_div_def f float64_of_pageSize del: power_numeral)
  show thesis
  proof (cases "n \<le> 47")
    case True
    then have ex: "nat (- int n + 47) = 47 - n" "nat (- 47 + int n) = 0" by simp_all
    have "(2::nat) ^ n * 2 ^ (47 - n) = 2 ^ 47"
      using True by (simp add: power_add [symmetric] del: power_numeral)
    then have "c * 2 ^ n * 2 ^ (47 - n) = c * 2 ^ 47" by (simp only: mult.assoc)
    with unf ex have "float64_div (float64_of_nat c) (float64_of_nat pageSize)
        = float64_round (c * 2 ^ 47) (50 * 2 ^ 47)"
      by (simp only: power_0 mult_1_right)
    then show ?thesis by (rule that)
  next
    case False
    then have ex: "nat (- int n + 47) = 0" "nat (- 47 + int n) = n - 47" by simp_all
    have "(2::nat) ^ 47 * 2 ^ (n - 47) = 2 ^ n"
      using False by (simp add: power_add [symmetric] del: power_numeral)
    then have "50 * 2 ^ 47 * 2 ^ (n - 47) = 50 * (2::nat) ^ n" by (simp only: mult.assoc)
    with unf ex have "float64_div (float64_of_nat c) (float64_of_nat pageSize)
        = float64_round (c * 2 ^ n) (50 * 2 ^ n)"
      by (simp only: power_0 mult_1_right)
    then show ?thesis by (rule that)
  qed
next
  assume c: "c = 2 ^ 53" and f: "float64_of_nat c = (2 ^ 52, 1)"
  have unf: "float64_div (float64_of_nat c) (float64_of_nat pageSize)
      = float64_round (2 ^ 52 * 2 ^ 48) (50 * 2 ^ 47 * 2 ^ 0)"
    by (simp add: float64_div_def f float64_of_pageSize del: power_numeral)
  have "(2::nat) ^ 52 * 2 ^ 48 = 2 ^ 53 * 2 ^ 47" by simp
  with unf c have "float64_div (float64_of_nat c) (float64_of_nat pageSize)
      = float64_round (c * 2 ^ 47) (50 * 2 ^ 47)"
    by (simp only: power_0 mult_1_right)
  then show thesis by (rule that)
qed

lemma ceil_div_arith:
  fixes m d c :: nat
  assumes d: "25 < d" and up: "50 * m \<le> c * d + 25" and low: "c * d \<le> 50 * m + 25"
  shows "(m + d - 1) div d = (c + 49) div 50"
proof -
  define k where "k = (c + 49) div 50"
  define s where "s = 50 * k - c"
  have "50 * k \<le> c + 49" "c \<le> 50 * k" unfolding k_def by arith+
  then have cs: "c + s = 50 * k" and s49: "s \<le> 49" unfolding s_def by arith+
  define K where "K = k * d"
  define S where "S = s * d"
  have "(c + s) * d = 50 * k * d" using cs by simp
  then have eq: "c * d + S = 50 * K" by (simp add: K_def S_def algebra_simps)
  have S49: "S \<le> 49 * d" unfolding S_def using s49 by simp
  have bounds: "K \<le> m + d - 1 \<and> m + d - 1 < K + d"
  proof (cases "s = 0")
    case True
    then have "S = 0" by (simp add: S_def)
    with eq up low d show ?thesis by arith
  next
    case False
    then have "1 * d \<le> s * d" by (intro mult_le_mono1) simp
    then have "d \<le> S" by (simp add: S_def)
    with eq up low d S49 show ?thesis by arith
  qed
  have "(m + d - 1) div d = k"
  proof (rule div_nat_eqI)
    show "d * k \<le> m + d - 1" using bounds by (simp add: K_def mult.commute)
    show "m + d - 1 < d * Suc k" using bounds by (simp add: K_def mult.commute)
  qed
  then show ?thesis by (simp add: k_def)
qed


lemma page_count_exact:
  assumes "unat c \<le> 2 ^ 53"
  shows "page_count c = of_nat ((unat c + 49) div 50)"
proof (cases "unat c = 0")
  case True
  then show ?thesis
    by (simp add: page_count_def float64_of_nat_def float64_div_def float64_round_def Ceil_def
          uint_of_float64_def)
next
  case False
  define n where "n = unat c"
  from False assms have n: "0 < n" "n \<le> 2 ^ 53" by (simp_all add: n_def)
  from float64_div_pageSize [OF n] obtain j where
    dv: "float64_div (float64_of_nat n) (float64_of_nat pageSize)
           = float64_round (n * 2 ^ j) (50 * 2 ^ j)"
    by blast
  have apos: "0 < n * 2 ^ j" and bpos: "(0::nat) < 50 * 2 ^ j" using n by simp_all
  from float64_round_spec [OF apos bpos] obtain m e where
    fr: "float64_round (n * 2 ^ j) (50 * 2 ^ j) = (m, e)"
    and lo: "2 ^ 52 * (50 * 2 ^ j * 2 ^ nat e) \<le> n * 2 ^ j * 2 ^ nat (- e)"
    and m: "m = round_half_even (n * 2 ^ j * 2 ^ nat (- e)) (50 * 2 ^ j * 2 ^ nat e)"
    by blast
  define d :: nat where "d = 2 ^ nat (- e)"
  have lo': "2 ^ 52 * 50 * 2 ^ nat e \<le> n * d"
  proof -
    from lo have "(2 ^ 52 * 50 * 2 ^ nat e) * 2 ^ j \<le> (n * d) * 2 ^ j"
      by (simp only: d_def mult_ac)
    then show ?thesis by (simp only: mult_le_cancel2) simp
  qed
  have eneg: "e < 0"
  proof (rule ccontr)
    assume "\<not> e < 0"
    then have "d = 1" by (simp add: d_def)
    with lo' have l: "2 ^ 52 * 50 * 2 ^ nat e \<le> n" by simp
    have "(1::nat) \<le> 2 ^ nat e" by simp
    then have "2 ^ 52 * 50 * (1::nat) \<le> 2 ^ 52 * 50 * 2 ^ nat e"
      by (simp only: mult_le_cancel1) simp
    from this l have "2 ^ 52 * 50 * 1 \<le> n" by (rule le_trans)
    with n(2) show False by simp
  qed
  then have ne: "nat e = 0" by simp
  from eneg obtain t where t: "nat (- e) = Suc t" by (cases "nat (- e)") auto
  have deven: "d = 2 * 2 ^ t" by (simp add: d_def t)
  have "2 ^ 52 * 50 \<le> n * d" using lo' ne by simp
  also have "\<dots> \<le> 2 ^ 53 * d" using n(2) by (simp only: mult_le_cancel2) simp
  finally have "25 \<le> d" by simp
  with deven have d25: "25 < d" by arith
  have D: "50 * 2 ^ j * 2 ^ nat e = 50 * (2::nat) ^ j" by (simp add: ne)
  have Dpos: "(0::nat) < 50 * 2 ^ j" by simp
  from round_half_even_error [OF Dpos, of "n * 2 ^ j * d"] m
  have err: "2 * (m * (50 * 2 ^ j)) \<le> 2 * (n * 2 ^ j * d) + 50 * 2 ^ j"
            "2 * (n * 2 ^ j * d) \<le> 2 * (m * (50 * 2 ^ j)) + 50 * 2 ^ j"
    by (simp_all only: D d_def)
  have up: "50 * m \<le> n * d + 25"
  proof -
    from err(1) have "(100 * m) * 2 ^ j \<le> (2 * (n * d) + 50) * 2 ^ j"
      by (simp add: algebra_simps)
    then have "100 * m \<le> 2 * (n * d) + 50" by (simp only: mult_le_cancel2) simp
    then show ?thesis by simp
  qed
  have low: "n * d \<le> 50 * m + 25"
  proof -
    from err(2) have "(2 * (n * d)) * 2 ^ j \<le> (100 * m + 50) * 2 ^ j"
      by (simp add: algebra_simps)
    then have "2 * (n * d) \<le> 100 * m + 50" by (simp only: mult_le_cancel2) simp
    then show ?thesis by simp
  qed
  have "page_count c = of_nat ((m + d - 1) div d)"
    using eneg by (simp add: page_count_def n_def [symmetric] dv fr Ceil_def uint_of_float64_def d_def)
  with ceil_div_arith [OF d25 up low] show ?thesis by (simp add: n_def)
qed


lemma unat_of_nat_64: "n < 2 ^ 64 \<Longrightarrow> unat (of_nat n :: 64 word) = n"
  by (simp add: unat_of_nat)

lemma sint_of_nat_64: "n < 2 ^ 63 \<Longrightarrow> sint (of_nat n :: 64 word) = int n"
  by (simp add: signed_of_nat signed_take_bit_int_eq_self)

lemma listing_offset:
  fixes p :: "64 word"
  assumes "1 \<le> p" and "50 * (unat p - 1) < 2 ^ 63"
  shows "sint (of_nat pageSize * (p - 1)) = int (50 * (unat p - 1))"
proof -
  from assms(1) have "p \<noteq> 0" by auto
  then have u: "unat (p - 1) = unat p - 1" by (rule unat_minus_one)
  have "of_nat pageSize * (p - 1) = (of_nat (50 * unat (p - 1)) :: 64 word)"
    by (simp add: pageSize_def)
  with u have "of_nat pageSize * (p - 1) = (of_nat (50 * (unat p - 1)) :: 64 word)" by simp
  with sint_of_nat_64 [OF assms(2)] show ?thesis by simp
qed

lemma requested_page_valid:
  "ParseUint s = Inr p \<Longrightarrow> 1 \<le> p \<Longrightarrow> requested_page s = p"
  by (auto simp: requested_page_def Let_def)

lemma matching_listing_query_page:
  "matching st (listing_query q p) = matching st (listing_query q p')"
  by (simp add: matching_def listing_query_def Let_def Find_def)

lemma window_listing_query:
  "window (listing_query q p) xs
     = take 50 (drop (nat (sint (of_nat pageSize * (p - 1) :: 64 word)))
         (sort_key (\<lambda>row. ID (Meta row)) xs))"
  by (simp add: window_def listing_query_def Let_def Find_def pageSize_def)

text \<open>\<open>(n + 49) div 50\<close> is the ceiling of \<open>n / 50\<close>: fifty times it is the least multiple of
  50 that is not below \<open>n\<close>.\<close>

lemma ceil_div_50:
  "(n :: nat) \<le> 50 * ((n + 49) div 50) \<and> 50 * ((n + 49) div 50) < n + 50"
  by arith

text \<open>
  The handler, where the page parameter parses to \<open>p \<ge> 1\<close> with \<open>50 (p - 1)\<close> within the
  range of a 64-bit \<open>int\<close> and the store answers both calls: the listing is the matching
  rows in ascending identifier order from offset \<open>50 (p - 1)\<close>, at most 50 of them, and no
  matching row gives the empty listing.
\<close>

lemma capturesHandler_page:
  assumes page: "ParseUint (URLParam r ''page'') = Inr p" "1 \<le> p"
    and fits: "50 * (unat p - 1) < 2 ^ 63"
    and ok: "failure st OpAll = None" "failure st OpCount = None"
    and found: "found = matching st (listing_query (sanitize_query (URLParam r ''q'')) p)"
    and requests: "requests = take 50 (drop (50 * (unat p - 1))
                     (sort_key (\<lambda>row. ID (Meta row)) found))"
  shows "capturesHandler Marshal st w r =
           replyJSON Marshal w
             (JSON_pull \<lparr>Requests = map Meta requests,
                         Pages = page_count (of_nat (length found)), Page = p\<rparr>) \<and>
         length requests \<le> 50 \<and>
         sorted (map (\<lambda>row. ID (Meta row)) requests) \<and>
         (found = [] \<longrightarrow> requests = [])"
proof -
  have rp: "requested_page (URLParam r ''page'') = p"
    using page by (rule requested_page_valid)
  have off: "nat (sint (of_nat pageSize * (p - 1) :: 64 word)) = 50 * (unat p - 1)"
    using listing_offset [OF page(2) fits] by simp
  have win: "window (listing_query (sanitize_query (URLParam r ''q'')) p) found = requests"
    by (simp only: window_listing_query off requests)
  have main: "capturesHandler Marshal st w r =
           replyJSON Marshal w
             (JSON_pull \<lparr>Requests = map Meta requests,
                         Pages = page_count (of_nat (length found)), Page = p\<rparr>)"
    unfolding capturesHandler_ok [OF ok] Let_def rp found [symmetric] win ..
  have len: "length requests \<le> 50" by (simp add: requests)
  have "sorted (map (\<lambda>row. ID (Meta row)) (sort_key (\<lambda>row. ID (Meta row)) found))"
    by (rule sorted_sort_key)
  then have srt: "sorted (map (\<lambda>row. ID (Meta row)) requests)"
    unfolding requests
    by (simp add: sorted_wrt_take sorted_wrt_drop take_map [symmetric] drop_map [symmetric]
          del: take_map drop_map)
  have emp: "found = [] \<longrightarrow> requests = []"
    by (simp add: requests)
  from main len srt emp show ?thesis by blast
qed

text \<open>The page count of \<open>n\<close> matching rows is the ceiling of \<open>n / 50\<close> for every \<open>n\<close> up to
  \<open>2\<^sup>5\<^sup>3\<close>, the integers a float64 holds exactly; no matching row gives 0.\<close>

lemma page_count_ceiling:
  assumes "n \<le> 2 ^ 53"
  shows "page_count (of_nat n) = of_nat ((n + 49) div 50)"
proof -
  from assms have "n < 2 ^ 64" by simp
  then have "unat (of_nat n :: 64 word) = n" by (rule unat_of_nat_64)
  with assms show ?thesis using page_count_exact [of "of_nat n"] by simp
qed

lemma page_count_zero: "page_count (of_nat (length ([] :: Record list))) = 0"
  using page_count_ceiling [of 0] by simp

text \<open>The store of 120 transactions: its rows are in identifier order, and the query
  without condition matches them all.\<close>

lemma store_of_120_failure: "failure store_of_120 op = None"
  by (simp add: store_of_120_def)

lemma store_of_120_ids:
  "map (\<lambda>row. ID (Meta row)) (map numbered_row [i..<j]) = [i..<j]"
  by (simp add: numbered_row_def comp_def map_idI)

lemma store_of_120_sorted:
  "sort_key (\<lambda>row. ID (Meta row)) (rows store_of_120) = rows store_of_120"
  by (rule sort_key_id_if_sorted) (simp add: store_of_120_def store_of_120_ids del: map_map)

lemma store_of_120_all:
  "matching store_of_120 (listing_query [] p) = rows store_of_120"
  by (simp add: matching_def listing_query_def Find_def)

lemma no_params_query: "sanitize_query (URLParam \<lparr>URLParams = []\<rparr> ''q'') = []"
  by code_simp

lemma store_of_120_third_page:
  "take 50 (drop (50 * (3 - 1)) (rows store_of_120)) = map numbered_row [101..<121]"
  by (simp add: store_of_120_def take_map drop_map)

lemma page_count_120: "page_count (of_nat (length (rows store_of_120))) = 3"
  using page_count_ceiling [of 120] by (simp add: store_of_120_def)

text \<open>Called with the URL parameter \<open>page\<close> bound to 3, the handler answers the third page of
  the 120 transactions: the last 20, and \<open>pages = 3\<close>.\<close>

lemma page_three_request:
  "ParseUint (URLParam \<lparr>URLParams = [(''page'', ''3'')]\<rparr> ''page'') = Inr 3"
  by (simp add: URLParam_def ParseUint_def is_digit_def)

lemma page_three_query:
  "sanitize_query (URLParam \<lparr>URLParams = [(''page'', ''3'')]\<rparr> ''q'') = []"
  by code_simp

lemma capturesHandler_page_three:
  "capturesHandler (marshal_as ''{}'') store_of_120 fresh_writer
       \<lparr>URLParams = [(''page'', ''3'')]\<rparr>
     = replyJSON (marshal_as ''{}'') fresh_writer
         (JSON_pull \<lparr>Requests = map Meta (map numbered_row [101..<121]), Pages = 3,
                     Page = 3\<rparr>)"
proof -
  have a: "(1 :: 64 word) \<le> 3" by simp
  have b: "50 * (unat (3 :: 64 word) - 1) < (2 :: nat) ^ 63" by simp
  have f: "rows store_of_120 = matching store_of_120
      (listing_query (sanitize_query (URLParam \<lparr>URLParams = [(''page'', ''3'')]\<rparr> ''q'')) 3)"
    by (simp only: page_three_query store_of_120_all)
  have r: "map numbered_row [101..<121] = take 50 (drop (50 * (unat (3 :: 64 word) - 1))
      (sort_key (\<lambda>row. ID (Meta row)) (rows store_of_120)))"
    by (simp only: store_of_120_sorted) (simp add: store_of_120_def take_map drop_map)
  from capturesHandler_page [OF page_three_request a b store_of_120_failure
      store_of_120_failure f r, of "marshal_as ''{}''" fresh_writer]
  show ?thesis by (simp only: page_count_120)
qed

text \<open>
  Two slips of the handler itself, at inputs beyond the ranges above. The page
  \<open>2\<^sup>6\<^sup>3 + 1\<close> parses, and \<open>50 \<cdot> 2\<^sup>6\<^sup>3\<close> wraps to offset 0: the listing is the first page of the
  store, where offset \<open>50 (p - 1)\<close> leaves nothing. And a count of 9007199254741001 is
  rounded by \<open>float64(c)\<close> to a multiple of 50, so that \<open>pages\<close> is one less than the ceiling.
\<close>

lemma huge_page_request:
  "ParseUint (URLParam \<lparr>URLParams = [(''page'', ''9223372036854775809'')]\<rparr> ''page'')
     = Inr 9223372036854775809"
  by (simp add: URLParam_def ParseUint_def is_digit_def)

lemma huge_page_offset: "sint (of_nat pageSize * (9223372036854775809 - 1) :: 64 word) = 0"
  by (simp add: pageSize_def)

lemma page_count_one: "page_count 1 = 1"
  by (simp add: page_count_def float64_of_nat_def float64_div_def float64_round_def Ceil_def
        uint_of_float64_def pageSize_def bit_length.simps round_half_even_def Let_def)

lemma page_count_inexact: "page_count 9007199254741001 = 180143985094820"
  by (simp add: page_count_def float64_of_nat_def float64_div_def float64_round_def Ceil_def
        uint_of_float64_def pageSize_def bit_length.simps round_half_even_def Let_def)

lemma example_store_failure: "failure example_store op = None"
  by (simp add: example_store_def)

lemma capturesHandler_page_wraps:
  "ParseUint (URLParam \<lparr>URLParams = [(''page'', ''9223372036854775809'')]\<rparr> ''page'')
     = Inr 9223372036854775809 \<and>
   capturesHandler (marshal_as ''{}'') example_store fresh_writer
       \<lparr>URLParams = [(''page'', ''9223372036854775809'')]\<rparr>
     = replyJSON (marshal_as ''{}'') fresh_writer
         (JSON_pull \<lparr>Requests = [example_meta], Pages = 1, Page = 9223372036854775809\<rparr>) \<and>
   take 50 (drop (50 * (unat (9223372036854775809 :: 64 word) - 1))
      (sort_key (\<lambda>row. ID (Meta row)) (rows example_store))) = [] \<and>
   page_count 9007199254741001 = 180143985094820 \<and>
   (9007199254741001 + 49) div 50 = (180143985094821 :: nat)"
proof -
  have rp: "requested_page (URLParam \<lparr>URLParams = [(''page'', ''9223372036854775809'')]\<rparr>
      ''page'') = 9223372036854775809"
    using huge_page_request by (simp add: requested_page_def)
  have q: "sanitize_query (URLParam \<lparr>URLParams = [(''page'', ''9223372036854775809'')]\<rparr>
      ''q'') = []"
    by (simp add: URLParam_def sanitize_query_def)
  have f: "matching example_store (listing_query [] 9223372036854775809) = [stored_record]"
    by (simp add: matching_def listing_query_def Find_def example_store_def)
  have w: "window (listing_query [] 9223372036854775809) [stored_record] = [stored_record]"
    by (simp only: window_listing_query huge_page_offset) simp
  have "capturesHandler (marshal_as ''{}'') example_store fresh_writer
       \<lparr>URLParams = [(''page'', ''9223372036854775809'')]\<rparr>
     = replyJSON (marshal_as ''{}'') fresh_writer
         (JSON_pull \<lparr>Requests = [example_meta], Pages = 1, Page = 9223372036854775809\<rparr>)"
    unfolding capturesHandler_ok [OF example_store_failure example_store_failure] Let_def rp q f w
    by (simp add: page_count_one stored_record_def)
  moreover have "take 50 (drop (50 * (unat (9223372036854775809 :: 64 word) - 1))
      (sort_key (\<lambda>row. ID (Meta row)) (rows example_store))) = []"
    by (simp add: example_store_def)
  moreover have "(9007199254741001 + 49) div 50 = (180143985094821 :: nat)" by simp
  ultimately show ?thesis using huge_page_request page_count_inexact by blast
qed

text \<open>
  C4. The claim fails at the request \<open>GET /records/?page=3\<close> on the store of 120
  transactions. The page number 3 is valid, and the claim has the listing start at offset
  \<open>50 (3 - 1)\<close>: the transactions 101 to 120. The routes bind no URL parameter \<open>page\<close>, so
  the handler reads the empty string, which does not parse, and takes page 1: the answer
  is the transactions 1 to 50, with \<open>pages = 3\<close> and \<open>page = 1\<close>.
\<close>

theorem listing_ignores_requested_page:
  "ParseUint ''3'' = Inr 3 \<and>
   routes (marshal_as ''{}'') serve_whole store_of_120 fresh_writer [''records'']
       [(''page'', ''3'')]
     = replyJSON (marshal_as ''{}'') fresh_writer
         (JSON_pull \<lparr>Requests = map Meta (map numbered_row [1..<51]), Pages = 3, Page = 1\<rparr>) \<and>
   take 50 (drop (50 * (3 - 1)) (sort_key (\<lambda>row. ID (Meta row)) (rows store_of_120)))
     = map numbered_row [101..<121] \<and>
   map (\<lambda>row. ID (Meta row)) (map numbered_row [1..<51]) = [1..<51] \<and>
   map (\<lambda>row. ID (Meta row)) (map numbered_row [101..<121]) = [101..<121]"
proof -
  have p: "ParseUint ''3'' = Inr 3"
    by (simp add: ParseUint_def is_digit_def)
  have w: "window (listing_query [] 1) (rows store_of_120) = map numbered_row [1..<51]"
    by (simp only: window_listing_query store_of_120_sorted)
       (simp add: store_of_120_def take_map)
  have "routes (marshal_as ''{}'') serve_whole store_of_120 fresh_writer [''records'']
       [(''page'', ''3'')]
     = capturesHandler (marshal_as ''{}'') store_of_120 fresh_writer \<lparr>URLParams = []\<rparr>"
    by (simp add: routes_def)
  also have "\<dots> = replyJSON (marshal_as ''{}'') fresh_writer
         (JSON_pull \<lparr>Requests = map Meta (map numbered_row [1..<51]), Pages = 3, Page = 1\<rparr>)"
    unfolding capturesHandler_ok [OF store_of_120_failure store_of_120_failure] Let_def
      no_params_page no_params_query store_of_120_all w page_count_120 ..
  finally have r: "routes (marshal_as ''{}'') serve_whole store_of_120 fresh_writer
      [''records''] [(''page'', ''3'')]
     = replyJSON (marshal_as ''{}'') fresh_writer
         (JSON_pull \<lparr>Requests = map Meta (map numbered_row [1..<51]), Pages = 3, Page = 1\<rparr>)" .
  have t: "take 50 (drop (50 * (3 - 1)) (sort_key (\<lambda>row. ID (Meta row)) (rows store_of_120)))
     = map numbered_row [101..<121]"
    by (simp only: store_of_120_sorted store_of_120_third_page)
  from p r t store_of_120_ids show ?thesis by blast
qed

end
